theory Spec2Isabelle
  imports Complex_Main "HOL-Library.AList" "HOL-Library.Log_Nat"
begin

section \<open>JavaScript numbers and objects, as far as the scoring code uses them\<close>

subsection \<open>Double-precision arithmetic\<close>

text \<open>
  A JavaScript number is an IEEE 754 double. The model carries its exact value as a
  rational and rounds the exact result of every arithmetic operation to the nearest double,
  ties to the even significand, as the processor does. The exponent range is taken to be
  unbounded: overflow to an infinity and gradual underflow (magnitudes from 2^1024 on, or
  below 2^-1022) are outside the model.
\<close>

text \<open>The nearest integer, a tie to the even one.\<close>

definition round_even :: "rat \<Rightarrow> int" where
  "round_even y =
     (let f = \<lfloor>y\<rfloor>; d = y - of_int f
      in if d < 1 / 2 then f else if d > 1 / 2 then f + 1 else if even f then f else f + 1)"

text \<open>The binary exponent of a positive number \<open>x\<close>: the \<open>e\<close> with \<open>2 powi e \<le> x < 2 powi (e + 1)\<close>.\<close>

definition ilog2 :: "rat \<Rightarrow> int" where
  "ilog2 x =
     (let (p, q) = quotient_of x; d = bitlen p - bitlen q
      in if 2 powi d \<le> x then d else d - 1)"

text \<open>
  The double nearest to \<open>x\<close>: \<open>x\<close> rounded to a multiple of \<open>2 powi (e - 52)\<close>, that is
  to 53 significant bits. A decimal literal of the source denotes the double nearest to it:
  \<^verbatim>\<open>0.8\<close> is \<open>fl (8 / 10)\<close>.
\<close>

definition fl :: "rat \<Rightarrow> rat" where
  "fl x =
     (if x = 0 then 0
      else (let u = 2 powi (ilog2 \<bar>x\<bar> - 52) in of_int (round_even (x / u)) * u))"

subsection \<open>Numbers\<close>

text \<open>
  A number is a double or \<^verbatim>\<open>NaN\<close>, the value that arithmetic on \<^verbatim>\<open>undefined\<close>
  produces (\<^verbatim>\<open>Math.min(100, undefined)\<close>). The numbers that enter the scoring code
  (counts, percentages read from a report) are taken to be doubles already.
\<close>

datatype jsnum = Num rat | NaN

fun js_add :: "jsnum \<Rightarrow> jsnum \<Rightarrow> jsnum" where
  "js_add (Num a) (Num b) = Num (fl (a + b))"
| "js_add _ _ = NaN"

fun js_mul :: "jsnum \<Rightarrow> jsnum \<Rightarrow> jsnum" where
  "js_mul (Num a) (Num b) = Num (fl (a * b))"
| "js_mul _ _ = NaN"

text \<open>
  Division: \<^verbatim>\<open>0 / 0\<close> is \<^verbatim>\<open>NaN\<close>. A non-zero number over zero is an infinity in
  JavaScript; the model has none, and the modelled code only divides by the literal 100
  and by the total of a weight table, so that branch also yields \<^verbatim>\<open>NaN\<close> here.
\<close>

fun js_div :: "jsnum \<Rightarrow> jsnum \<Rightarrow> jsnum" where
  "js_div (Num a) (Num b) = (if b = 0 then NaN else Num (fl (a / b)))"
| "js_div _ _ = NaN"

fun Math_min :: "jsnum \<Rightarrow> jsnum \<Rightarrow> jsnum" where
  "Math_min (Num a) (Num b) = Num (min a b)"
| "Math_min _ _ = NaN"

fun Math_max :: "jsnum \<Rightarrow> jsnum \<Rightarrow> jsnum" where
  "Math_max (Num a) (Num b) = Num (max a b)"
| "Math_max _ _ = NaN"

text \<open>
  \<^verbatim>\<open>Math.round\<close> rounds to the nearest integer, a tie towards plus infinity; it is exact
  (the result is a double whenever the argument is one).
\<close>

fun Math_round :: "jsnum \<Rightarrow> jsnum" where
  "Math_round (Num a) = Num (of_int \<lfloor>a + 1 / 2\<rfloor>)"
| "Math_round NaN = NaN"

text \<open>\<^verbatim>\<open>x >= c\<close> on numbers; every comparison with \<^verbatim>\<open>NaN\<close> is false.\<close>

fun js_ge :: "jsnum \<Rightarrow> rat \<Rightarrow> bool" where
  "js_ge (Num a) c = (a \<ge> c)"
| "js_ge NaN c = False"

subsection \<open>Findings\<close>

text \<open>
  A statement-coverage entry is either a bare percentage (what \<^verbatim>\<open>checkCoverage\<close> and
  \<^verbatim>\<open>checkTestCases\<close> of the first \<^verbatim>\<open>AnalyzerBase\<close> in
  \<^verbatim>\<open>src/lib/analyzer-base.js\<close> store: \<^verbatim>\<open>statements: coverageData.total.statements.pct\<close>)
  or a summary object with an optional \<^verbatim>\<open>pct\<close> field (what a coverage-summary file
  holds). The \<^verbatim>\<open>coverage\<close> property of a finding is a bare number
  (\<^verbatim>\<open>checkTests\<close>) or an object with an optional \<^verbatim>\<open>statements\<close> entry.
\<close>

datatype stmt_field = StmtNumber rat | StmtObject "rat option"

datatype coverage_field = CovNumber rat | CovObject "stmt_field option"

text \<open>An entry of an issue list; only the length of the list is read by the scoring.\<close>

type_synonym issue = string

record test_quality =
  tq_file :: string
  quality :: string

text \<open>\<^verbatim>\<open>{ success: bool, ... }\<close> sub-results of \<^verbatim>\<open>checkDependencies\<close>.\<close>

record dep_check =
  dep_success :: bool

text \<open>The record \<^verbatim>\<open>calculateWeightedCoverage\<close> returns.\<close>

record tier_points =
  tier_coverage :: rat
  tier_files :: nat
  tier_weight :: rat
  tier_points :: rat

record weighted_coverage =
  weightedScore :: "rat option"
  coreLogicCoverage :: rat
  infrastructureCoverage :: rat
  coreLogicFiles :: nat
  infrastructureFiles :: nat
  breakdown_coreLogic :: tier_points
  breakdown_infrastructure :: tier_points

record violation =
  v_file :: string
  v_line :: nat
  v_rule :: "string option"
  v_severity :: "string option"
  v_message :: "string option"
  v_suggestion :: "string option"
  v_matchedText :: string

text \<open>
  A Finding is a duck-typed JavaScript object. The record has one optional field for
  every property that the scoring, the orchestrator or the custom-rules analyzer reads
  or writes; \<open>None\<close> is \<^verbatim>\<open>undefined\<close> (the property is absent).
\<close>

record finding =
  success :: "bool option"
  error :: "string option"
  errors :: "nat option"
  warnings :: "nat option"
  vulnerabilities :: "nat option"
  coverage :: "coverage_field option"
  score :: "rat option"
  circularDependencies :: "dep_check option"
  outdatedPackages :: "dep_check option"
  securityVulnerabilities :: "dep_check option"
  performanceIssues :: "issue list option"
  antiPatterns :: "issue list option"
  bugs :: "issue list option"
  potentialIssues :: "issue list option"
  securityRisks :: "issue list option"
  missingTests :: "issue list option"
  testQuality :: "test_quality list option"
  weightedCoverage :: "weighted_coverage option"
  violations :: "nat option"
  details :: "violation list option"

definition empty_finding :: finding where
  "empty_finding = \<lparr> success = None, error = None, errors = None, warnings = None,
     vulnerabilities = None, coverage = None, score = None, circularDependencies = None,
     outdatedPackages = None, securityVulnerabilities = None, performanceIssues = None,
     antiPatterns = None, bugs = None, potentialIssues = None, securityRisks = None,
     missingTests = None, testQuality = None, weightedCoverage = None, violations = None,
     details = None \<rparr>"

text \<open>The record \<^verbatim>\<open>{ success: false, error: message }\<close>.\<close>

definition failure :: "string \<Rightarrow> finding" where
  "failure msg = empty_finding \<lparr> success := Some False, error := Some msg \<rparr>"

text \<open>
  A findings map is a JavaScript object: an association list in insertion order, whose
  keys are distinct because every write goes through property assignment
  (\<^const>\<open>AList.update\<close>: overwrite in place, or append).
\<close>

type_synonym findings = "(string \<times> finding) list"


section \<open>The scoring engine (\<^verbatim>\<open>src/lib/index.js\<close>)\<close>

text \<open>The length of a list, as a number: \<^verbatim>\<open>xs.length\<close>.\<close>

definition len :: "'a list \<Rightarrow> rat" where
  "len xs = of_nat (length xs)"

text \<open>\<^verbatim>\<open>x || 0\<close> on an optional count.\<close>

definition or_zero :: "nat option \<Rightarrow> rat" where
  "or_zero x = (case x of None \<Rightarrow> 0 | Some n \<Rightarrow> of_nat n)"

text \<open>\<^verbatim>\<open>findings.d && !findings.d.success\<close> for a sub-result of the dependency check.\<close>

definition dep_failed :: "dep_check option \<Rightarrow> bool" where
  "dep_failed d = (case d of None \<Rightarrow> False | Some c \<Rightarrow> \<not> dep_success c)"

text \<open>
  \<^verbatim>\<open>findings.coverage && findings.coverage.statements\<close>: the statements entry when both
  are truthy. A bare number has no \<^verbatim>\<open>statements\<close> property, and the number 0 is falsy.
\<close>

definition truthy_statements :: "finding \<Rightarrow> stmt_field option" where
  "truthy_statements f =
     (case coverage f of
        Some (CovObject (Some (StmtNumber n))) \<Rightarrow> if n = 0 then None else Some (StmtNumber n)
      | Some (CovObject (Some (StmtObject p))) \<Rightarrow> Some (StmtObject p)
      | _ \<Rightarrow> None)"

text \<open>\<^verbatim>\<open>statements.pct\<close>: \<^verbatim>\<open>undefined\<close> on a bare number or when the field is absent.\<close>

definition stmt_pct :: "stmt_field \<Rightarrow> rat option" where
  "stmt_pct s = (case s of StmtNumber n \<Rightarrow> None | StmtObject p \<Rightarrow> p)"

text \<open>An \<^verbatim>\<open>undefined\<close> operand of \<^verbatim>\<open>Math.min\<close> or \<^verbatim>\<open>Math.max\<close> converts to \<^verbatim>\<open>NaN\<close>.\<close>

definition to_number :: "rat option \<Rightarrow> jsnum" where
  "to_number x = (case x of None \<Rightarrow> NaN | Some q \<Rightarrow> Num q)"

text \<open>\<^verbatim>\<open>getAnalyzerScore(analyzer, findings)\<close>, lines 208--295, branch by branch.\<close>

definition getAnalyzerScore :: "string \<Rightarrow> finding \<Rightarrow> jsnum" where
  "getAnalyzerScore analyzer f =
    (if analyzer = ''eslint'' then
       (let issues = fl (or_zero (errors f) + fl (or_zero (warnings f) * (1 / 2)))
        in Math_max (Num 0) (Num (fl (100 - fl (issues * 2)))))
     else if analyzer = ''typescript'' then
       (case errors f of Some n \<Rightarrow> if n > 0 then Num 0 else Num 100 | None \<Rightarrow> Num 100)
     else if analyzer = ''security'' then
       (let vulns = or_zero (vulnerabilities f)
        in Math_max (Num 0) (Num (fl (100 - fl (vulns * 20)))))
     else if analyzer = ''tests'' then
       (case coverage f of
          None \<Rightarrow> Math_min (Num 100) (Num 0)
        | Some (CovNumber c) \<Rightarrow> Math_min (Num 100) (Num c)
        | Some (CovObject s) \<Rightarrow> Math_min (Num 100) NaN)
     else if analyzer = ''complexity'' then
       (case score f of None \<Rightarrow> Num 100 | Some s \<Rightarrow> if s = 0 then Num 100 else Num s)
     else if analyzer = ''dependencies'' then
       (let depScore = 100;
            depScore = (if dep_failed (circularDependencies f) then fl (depScore - 30)
                        else depScore);
            depScore = (if dep_failed (outdatedPackages f) then fl (depScore - 20)
                        else depScore);
            depScore = (if dep_failed (securityVulnerabilities f) then fl (depScore - 50)
                        else depScore)
        in Math_max (Num 0) (Num depScore))
     else if analyzer = ''coverage'' then
       (case truthy_statements f of
          Some s \<Rightarrow> Math_min (Num 100) (to_number (stmt_pct s))
        | None \<Rightarrow> if success f = Some True then Num 100 else Num 0)
     else if analyzer = ''performance'' then
       (let perfScore = 100;
            perfScore = (case performanceIssues f of
                           Some xs \<Rightarrow> fl (perfScore - fl (len xs * 10))
                         | None \<Rightarrow> perfScore)
        in Math_max (Num 0) (Num perfScore))
     else if analyzer = ''architecture'' then
       (let archScore = 100;
            archScore = (case antiPatterns f of
                           Some xs \<Rightarrow> fl (archScore - fl (len xs * 15))
                         | None \<Rightarrow> archScore)
        in Math_max (Num 0) (Num archScore))
     else if analyzer = ''bug-detection'' then
       (let bugScore = 100;
            bugScore = (case bugs f of Some xs \<Rightarrow> fl (bugScore - fl (len xs * 25))
                        | None \<Rightarrow> bugScore);
            bugScore = (case potentialIssues f of Some xs \<Rightarrow> fl (bugScore - fl (len xs * 5))
                        | None \<Rightarrow> bugScore);
            bugScore = (case securityRisks f of Some xs \<Rightarrow> fl (bugScore - fl (len xs * 30))
                        | None \<Rightarrow> bugScore);
            bugScore = (case performanceIssues f of Some xs \<Rightarrow> fl (bugScore - fl (len xs * 10))
                        | None \<Rightarrow> bugScore)
        in Math_max (Num 0) (Num bugScore))
     else if analyzer = ''test-cases'' then
       (let testScore = 100;
            testScore = (case missingTests f of
                           Some xs \<Rightarrow> fl (testScore - fl (len xs * 10))
                         | None \<Rightarrow> testScore);
            testScore = (case testQuality f of
                           Some ts \<Rightarrow>
                             fl (testScore - fl (len (filter (\<lambda>t. quality t = ''POOR'') ts) * 20))
                         | None \<Rightarrow> testScore);
            testScore' = (case truthy_statements f of
                            Some s \<Rightarrow> Math_min (Num testScore) (to_number (stmt_pct s))
                          | None \<Rightarrow> Num testScore)
        in Math_max (Num 0) testScore')
     else Num 100)"

text \<open>\<^verbatim>\<open>getGrade(score)\<close>, lines 300--306.\<close>

definition getGrade :: "jsnum \<Rightarrow> string" where
  "getGrade s =
     (if js_ge s 90 then ''A'' else if js_ge s 80 then ''B'' else if js_ge s 70 then ''C''
      else if js_ge s 60 then ''D'' else ''F'')"

text \<open>The weight table of \<^verbatim>\<open>calculateScore\<close>, lines 172--184, in the order of its keys.\<close>

definition weights :: "(string \<times> rat) list" where
  "weights =
     [(''eslint'', 12), (''typescript'', 12), (''security'', 20), (''tests'', 10),
      (''complexity'', 8), (''dependencies'', 8), (''coverage'', 8), (''performance'', 8),
      (''architecture'', 5), (''bug-detection'', 15), (''test-cases'', 12)]"

text \<open>
  \<^verbatim>\<open>findings[analyzer] && findings[analyzer].success !== false\<close>: the entry that is
  scored, if any.
\<close>

definition scored :: "findings \<Rightarrow> string \<Rightarrow> finding option" where
  "scored fs analyzer =
     (case map_of fs analyzer of
        None \<Rightarrow> None
      | Some f \<Rightarrow> if success f = Some False then None else Some f)"

text \<open>
  One round of the \<^verbatim>\<open>forEach\<close> over the weight table, lines 186--193, on the pair
  \<^verbatim>\<open>(totalScore, maxScore)\<close>; \<^verbatim>\<open>+=\<close> is a double addition.
\<close>

fun score_step :: "findings \<Rightarrow> jsnum \<times> rat \<Rightarrow> string \<times> rat \<Rightarrow> jsnum \<times> rat" where
  "score_step fs (totalScore, maxScore) (analyzer, weight) =
     (let maxScore = fl (maxScore + weight)
      in case scored fs analyzer of
           Some f \<Rightarrow>
             (let analyzerScore = getAnalyzerScore analyzer f
              in (js_add totalScore (js_mul (js_div analyzerScore (Num 100)) (Num weight)),
                  maxScore))
         | None \<Rightarrow> (totalScore, maxScore))"

record breakdown_entry =
  b_score :: jsnum
  b_weight :: rat
  b_findings :: finding

text \<open>\<^verbatim>\<open>getScoreBreakdown(findings, weights)\<close>, lines 311--325.\<close>

fun getScoreBreakdown :: "findings \<Rightarrow> (string \<times> rat) list \<Rightarrow> (string \<times> breakdown_entry) list" where
  "getScoreBreakdown fs [] = []"
| "getScoreBreakdown fs ((analyzer, weight) # ws) =
     (case map_of fs analyzer of
        Some f \<Rightarrow>
          (analyzer, \<lparr> b_score = getAnalyzerScore analyzer f, b_weight = weight,
                       b_findings = f \<rparr>) # getScoreBreakdown fs ws
      | None \<Rightarrow> getScoreBreakdown fs ws)"

record score_record =
  overall :: jsnum
  grade :: string
  breakdown :: "(string \<times> breakdown_entry) list"

text \<open>\<^verbatim>\<open>calculateScore(findings)\<close>, lines 169--203.\<close>

definition calculateScore :: "findings \<Rightarrow> score_record" where
  "calculateScore fs =
     (let (totalScore, maxScore) = foldl (score_step fs) (Num 0, 0) weights;
          overall = Math_round (js_mul (js_div totalScore (Num maxScore)) (Num 100))
      in \<lparr> overall = overall, grade = getGrade overall,
           breakdown = getScoreBreakdown fs weights \<rparr>)"

subsection \<open>Vocabulary for the properties of the scoring engine\<close>

text \<open>
  The sum of a list of numbers, added from left to right as a loop with \<^verbatim>\<open>+=\<close> does, on
  JavaScript numbers and on doubles.
\<close>

definition js_sum :: "jsnum list \<Rightarrow> jsnum" where
  "js_sum xs = foldl js_add (Num 0) xs"

definition double_sum :: "rat list \<Rightarrow> rat" where
  "double_sum xs = foldl (\<lambda>t c. fl (t + c)) 0 xs"

text \<open>
  What one row of the weight table adds to \<^verbatim>\<open>totalScore\<close>: nothing when the analyzer
  has no entry or its entry is marked \<^verbatim>\<open>success: false\<close>.
\<close>

definition contribution :: "findings \<Rightarrow> string \<times> rat \<Rightarrow> jsnum option" where
  "contribution fs aw =
     (case scored fs (fst aw) of
        None \<Rightarrow> None
      | Some f \<Rightarrow> Some (js_mul (js_div (getAnalyzerScore (fst aw) f) (Num 100)) (Num (snd aw))))"

text \<open>The sub-score of a scored analyzer as a rational (0 where there is none).\<close>

definition subscore :: "findings \<Rightarrow> string \<Rightarrow> rat" where
  "subscore fs a =
     (case scored fs a of
        None \<Rightarrow> 0
      | Some f \<Rightarrow> (case getAnalyzerScore a f of Num q \<Rightarrow> q | NaN \<Rightarrow> 0))"

text \<open>Every scored analyzer of the table has a sub-score that is a number.\<close>

definition numeric_scores :: "findings \<Rightarrow> (string \<times> rat) list \<Rightarrow> bool" where
  "numeric_scores fs ws =
     list_all (\<lambda>aw. case scored fs (fst aw) of None \<Rightarrow> True
                      | Some f \<Rightarrow> getAnalyzerScore (fst aw) f \<noteq> NaN) ws"

text \<open>
  The aggregation as the specification words it: numerator and denominator both range
  over the analyzers present in the findings map and in the weight table.
\<close>

definition spec_overall :: "findings \<Rightarrow> jsnum" where
  "spec_overall fs =
     (let present = filter (\<lambda>aw. map_of fs (fst aw) \<noteq> None) weights;
          numerator = js_sum (List.map_filter (\<lambda>aw. map_option (\<lambda>f.
              js_mul (js_div (getAnalyzerScore (fst aw) f) (Num 100)) (Num (snd aw)))
              (map_of fs (fst aw))) present);
          denominator = sum_list (map snd present)
      in Math_round (js_mul (js_div numerator (Num denominator)) (Num 100)))"

text \<open>A number in the closed range 0 to 100, and an integer in that range.\<close>

definition in_range :: "jsnum \<Rightarrow> bool" where
  "in_range x = (case x of Num q \<Rightarrow> 0 \<le> q \<and> q \<le> 100 | NaN \<Rightarrow> False)"

definition int_in_range :: "jsnum \<Rightarrow> bool" where
  "int_in_range x =
     (case x of Num q \<Rightarrow> of_int \<lfloor>q\<rfloor> = q \<and> 0 \<le> q \<and> q \<le> 100 | NaN \<Rightarrow> False)"

text \<open>
  The findings the range property covers. The scoring passes three numeric fields through
  with a clamp on one side only or none, so the property needs them in range on the other
  side: a bare \<^verbatim>\<open>coverage\<close> percentage of \<^verbatim>\<open>tests\<close> that is not negative (what
  \<^verbatim>\<open>checkTests\<close> stores), a \<^verbatim>\<open>score\<close> of \<^verbatim>\<open>complexity\<close> that is an integer in
  0..100 (what \<^verbatim>\<open>analyzeComplexity\<close> stores: \<^verbatim>\<open>Math.round\<close> of a clamped ratio), and,
  for \<^verbatim>\<open>coverage\<close> and \<^verbatim>\<open>test-cases\<close>, a \<^verbatim>\<open>coverage.statements\<close> entry that is
  absent, 0, or a summary object with a non-negative \<^verbatim>\<open>pct\<close>.

  This leaves out findings that the analyzers do return: \<^verbatim>\<open>checkCoverage\<close> and
  \<^verbatim>\<open>checkTestCases\<close> of \<^verbatim>\<open>src/lib/analyzer-base.js\<close> (lines 778--783 and
  1271--1276) store \<^verbatim>\<open>coverage.statements\<close> as a bare number. For a bare non-zero
  \<^verbatim>\<open>statements\<close> the scoring reads \<^verbatim>\<open>statements.pct\<close>, which is \<^verbatim>\<open>undefined\<close>,
  and the sub-score is \<^verbatim>\<open>NaN\<close>. On those findings \<open>shaped\<close> is False; so it is on a
  \<^verbatim>\<open>tests\<close> finding whose \<^verbatim>\<open>coverage\<close> is an object and on a summary without
  \<^verbatim>\<open>pct\<close>.
\<close>

definition shaped :: "string \<Rightarrow> finding \<Rightarrow> bool" where
  "shaped a f =
     ((if a = ''tests'' then
         (case coverage f of None \<Rightarrow> True | Some (CovNumber c) \<Rightarrow> 0 \<le> c
          | Some (CovObject s) \<Rightarrow> False)
       else True) \<and>
      (if a = ''complexity'' then
         (case score f of None \<Rightarrow> True
          | Some s \<Rightarrow> of_int \<lfloor>s\<rfloor> = s \<and> 0 \<le> s \<and> s \<le> 100)
       else True) \<and>
      (if a = ''coverage'' \<or> a = ''test-cases'' then
         (case truthy_statements f of None \<Rightarrow> True
          | Some s \<Rightarrow> (case stmt_pct s of None \<Rightarrow> False | Some p \<Rightarrow> 0 \<le> p))
       else True))"

text \<open>
  A finding with a bare non-zero \<^verbatim>\<open>coverage.statements\<close>, as \<^verbatim>\<open>checkCoverage\<close> and
  \<^verbatim>\<open>checkTestCases\<close> store it.
\<close>

definition bare_statements :: "finding \<Rightarrow> bool" where
  "bare_statements f =
     (case coverage f of
        Some (CovObject (Some (StmtNumber n))) \<Rightarrow> n \<noteq> 0
      | _ \<Rightarrow> False)"

text \<open>
  \<^verbatim>\<open>s -= xs.length * k\<close> under \<^verbatim>\<open>if (xs)\<close>, and \<^verbatim>\<open>s -= k\<close> under a condition.
\<close>

definition minus_pen :: "rat \<Rightarrow> 'a list option \<Rightarrow> rat \<Rightarrow> rat" where
  "minus_pen s xs k = (case xs of Some ys \<Rightarrow> fl (s - fl (len ys * k)) | None \<Rightarrow> s)"

definition minus_if :: "rat \<Rightarrow> bool \<Rightarrow> rat \<Rightarrow> rat" where
  "minus_if s c k = (if c then fl (s - k) else s)"

text \<open>Sample findings: what the analyzers return on a small project.\<close>

definition clean_eslint :: finding where
  "clean_eslint = empty_finding \<lparr> success := Some True, errors := Some 0, warnings := Some 0 \<rparr>"

definition lint_3_2 :: finding where
  "lint_3_2 = empty_finding \<lparr> success := Some False, errors := Some 3, warnings := Some 2 \<rparr>"

definition no_vulnerabilities :: finding where
  "no_vulnerabilities = empty_finding \<lparr> success := Some True, vulnerabilities := Some 0 \<rparr>"

definition tests_85_5 :: finding where
  "tests_85_5 = empty_finding \<lparr> success := Some True, coverage := Some (CovNumber (171 / 2)) \<rparr>"

text \<open>
  A complexity score of 36, five architecture anti-patterns, and the finding
  \<^verbatim>\<open>checkCoverage\<close> returns for 85 percent statement coverage.
\<close>

definition complexity_36 :: finding where
  "complexity_36 = empty_finding \<lparr> success := Some True, score := Some 36 \<rparr>"

definition five_antiPatterns :: finding where
  "five_antiPatterns =
     empty_finding \<lparr> success := Some True,
       antiPatterns := Some [''god-object'', ''god-object'', ''deep-nesting'', ''deep-nesting'',
                             ''magic-number''] \<rparr>"

definition coverage_bare_85 :: finding where
  "coverage_bare_85 =
     empty_finding \<lparr> success := Some True, coverage := Some (CovObject (Some (StmtNumber 85))) \<rparr>"

section \<open>The analyzer orchestrator (\<^verbatim>\<open>runAnalyzers\<close>, \<^verbatim>\<open>src/lib/index.js\<close> lines 104--164)\<close>

text \<open>
  An analyzer is a method of \<^verbatim>\<open>AnalyzerBase\<close> that shells out, reads files and either
  returns a Finding or throws. The orchestrator only sees that outcome, so the analyzers
  enter its model as one outcome per method; the same method gives the same outcome each
  time it is called within a run.
\<close>

datatype outcome = Returns finding | Throws string

record analyzer_results =
  checkESLint_result :: outcome
  checkTypeScript_result :: outcome
  checkSecurity_result :: outcome
  checkTests_result :: outcome
  analyzeComplexity_result :: outcome
  checkCustomRules_result :: outcome
  checkDependencies_result :: outcome
  checkCoverage_result :: outcome
  checkPerformance_result :: outcome
  checkArchitecture_result :: outcome
  checkBugDetection_result :: outcome
  checkTestCases_result :: outcome

text \<open>
  The \<^verbatim>\<open>switch\<close> of lines 114--153: for a recognized name, the property of
  \<^verbatim>\<open>findings\<close> that the result is assigned to and the outcome of the method called;
  \<open>None\<close> for the \<^verbatim>\<open>default\<close> branch, which only warns.
\<close>

definition dispatch :: "analyzer_results \<Rightarrow> string \<Rightarrow> (string \<times> outcome) option" where
  "dispatch az analyzerName =
     (if analyzerName = ''eslint'' then Some (''eslint'', checkESLint_result az)
      else if analyzerName = ''typescript'' then Some (''typescript'', checkTypeScript_result az)
      else if analyzerName = ''security'' then Some (''security'', checkSecurity_result az)
      else if analyzerName = ''tests'' then Some (''tests'', checkTests_result az)
      else if analyzerName = ''complexity'' then Some (''complexity'', analyzeComplexity_result az)
      else if analyzerName = ''custom-rules'' then Some (''customRules'', checkCustomRules_result az)
      else if analyzerName = ''dependencies'' then Some (''dependencies'', checkDependencies_result az)
      else if analyzerName = ''coverage'' then Some (''coverage'', checkCoverage_result az)
      else if analyzerName = ''performance'' then Some (''performance'', checkPerformance_result az)
      else if analyzerName = ''architecture'' then Some (''architecture'', checkArchitecture_result az)
      else if analyzerName = ''bug-detection'' then Some (''bugDetection'', checkBugDetection_result az)
      else if analyzerName = ''test-cases'' then Some (''testCases'', checkTestCases_result az)
      else None)"

text \<open>
  One round of the \<^verbatim>\<open>for\<close> loop: the \<^verbatim>\<open>try\<close> block assigns the returned Finding
  to the property the branch names; the \<^verbatim>\<open>catch\<close> block assigns the failure record to
  \<^verbatim>\<open>findings[analyzerName]\<close>.
\<close>

definition run_one :: "analyzer_results \<Rightarrow> findings \<Rightarrow> string \<Rightarrow> findings" where
  "run_one az fs analyzerName =
     (case dispatch az analyzerName of
        None \<Rightarrow> fs
      | Some (key, Returns f) \<Rightarrow> AList.update key f fs
      | Some (key, Throws msg) \<Rightarrow> AList.update analyzerName (failure msg) fs)"

text \<open>
  \<^verbatim>\<open>runAnalyzers\<close>: the loop over \<^verbatim>\<open>enabledAnalyzers\<close>, from the empty object. Its
  result is always a findings map: nothing thrown inside the loop leaves the
  \<^verbatim>\<open>try\<close>/\<^verbatim>\<open>catch\<close>.
\<close>

definition runAnalyzers :: "analyzer_results \<Rightarrow> string list \<Rightarrow> findings" where
  "runAnalyzers az enabledAnalyzers = foldl (run_one az) [] enabledAnalyzers"

subsection \<open>The list of enabled analyzers (\<^verbatim>\<open>src/lib/config-manager.js\<close>)\<close>

text \<open>
  \<^verbatim>\<open>[...new Set(xs)]\<close>: the elements of \<open>xs\<close> in the order of their first occurrence.
\<close>

definition set_add :: "string list \<Rightarrow> string \<Rightarrow> string list" where
  "set_add acc x = (if x \<in> set acc then acc else acc @ [x])"

definition array_from_Set :: "string list \<Rightarrow> string list" where
  "array_from_Set xs = foldl set_add [] xs"

text \<open>
  \<^verbatim>\<open>mergeConfigs(base, override)\<close>, lines 166--190, on the key \<^verbatim>\<open>analyzers\<close>, whose
  value is an array or absent (\<open>None\<close>): an absent or \<^verbatim>\<open>null\<close> override keeps the
  base, an array is appended to the base and repeated names are dropped.
\<close>

definition mergeConfigs_analyzers ::
  "string list option \<Rightarrow> string list option \<Rightarrow> string list option" where
  "mergeConfigs_analyzers base override =
     (case override of
        None \<Rightarrow> base
      | Some ov \<Rightarrow> Some (array_from_Set ((case base of None \<Rightarrow> [] | Some b \<Rightarrow> b) @ ov)))"

text \<open>
  The \<^verbatim>\<open>analyzers\<close> entries of the configurations that \<^verbatim>\<open>loadConfig\<close> merges: the
  project file, the template the project extends (\<open>None\<close> when it extends none) and
  \<^verbatim>\<open>package.json\<close>.
\<close>

record config_sources =
  project_analyzers :: "string list option"
  template_analyzers :: "string list option option"
  package_analyzers :: "string list option"

definition default_analyzers :: "string list" where
  "default_analyzers =
     [''eslint'', ''typescript'', ''security'', ''tests'', ''complexity'', ''bug-detection'',
      ''test-cases'']"

text \<open>\<^verbatim>\<open>loadConfig()\<close>, lines 20--46, on the key \<^verbatim>\<open>analyzers\<close>.\<close>

definition loadConfig_analyzers :: "config_sources \<Rightarrow> string list option" where
  "loadConfig_analyzers sources =
     (let config = mergeConfigs_analyzers (Some default_analyzers) (project_analyzers sources);
          config = (case template_analyzers sources of
                      None \<Rightarrow> config
                    | Some templateConfig \<Rightarrow> mergeConfigs_analyzers templateConfig config)
      in mergeConfigs_analyzers config (package_analyzers sources))"

text \<open>\<^verbatim>\<open>getEnabledAnalyzers()\<close>, lines 226--229: the list \<^verbatim>\<open>runAnalyzers\<close> loops over.\<close>

definition getEnabledAnalyzers :: "config_sources \<Rightarrow> string list" where
  "getEnabledAnalyzers sources =
     (case loadConfig_analyzers sources of
        None \<Rightarrow> [''eslint'', ''typescript'', ''security'', ''tests'']
      | Some analyzers \<Rightarrow> analyzers)"

subsection \<open>Vocabulary for the properties of the orchestrator\<close>

definition recognized :: "analyzer_results \<Rightarrow> string \<Rightarrow> bool" where
  "recognized az n = (dispatch az n \<noteq> None)"

definition throws :: "analyzer_results \<Rightarrow> string \<Rightarrow> bool" where
  "throws az n = (case dispatch az n of Some (key, Throws msg) \<Rightarrow> True | _ \<Rightarrow> False)"

text \<open>
  The analyzer of a name returns a Finding that is not marked \<^verbatim>\<open>success: false\<close>, and
  an entry of the findings map is marked so.
\<close>

definition succeeds :: "analyzer_results \<Rightarrow> string \<Rightarrow> bool" where
  "succeeds az n =
     (case dispatch az n of Some (key, Returns f) \<Rightarrow> success f \<noteq> Some False | _ \<Rightarrow> False)"

definition marked_failed :: "string \<times> finding \<Rightarrow> bool" where
  "marked_failed kf = (success (snd kf) = Some False)"

text \<open>The entry one recognized name leaves in the findings map.\<close>

definition entry :: "analyzer_results \<Rightarrow> string \<Rightarrow> string \<times> finding" where
  "entry az n =
     (case dispatch az n of
        Some (key, Returns f) \<Rightarrow> (key, f)
      | Some (key, Throws msg) \<Rightarrow> (n, failure msg)
      | None \<Rightarrow> (n, empty_finding))"

text \<open>The requested name a property key belongs to.\<close>

definition requested_name :: "string \<Rightarrow> string" where
  "requested_name key =
     (if key = ''customRules'' then ''custom-rules''
      else if key = ''bugDetection'' then ''bug-detection''
      else if key = ''testCases'' then ''test-cases''
      else key)"

text \<open>The entry under a key, if any, is a failure record.\<close>

definition only_failed :: "findings \<Rightarrow> string \<Rightarrow> bool" where
  "only_failed fs k = (case map_of fs k of None \<Rightarrow> True | Some f \<Rightarrow> (\<exists>msg. f = failure msg))"

text \<open>A finding marked \<^verbatim>\<open>success: true\<close>, and analyzers of which only security throws.\<close>

definition ok_finding :: finding where
  "ok_finding = empty_finding \<lparr> success := Some True \<rparr>"

definition security_throws :: analyzer_results where
  "security_throws =
     \<lparr> checkESLint_result = Returns clean_eslint,
       checkTypeScript_result = Returns ok_finding,
       checkSecurity_result = Throws ''npm audit failed'',
       checkTests_result = Returns tests_85_5,
       analyzeComplexity_result = Returns ok_finding,
       checkCustomRules_result = Returns ok_finding,
       checkDependencies_result = Returns ok_finding,
       checkCoverage_result = Returns ok_finding,
       checkPerformance_result = Returns ok_finding,
       checkArchitecture_result = Returns ok_finding,
       checkBugDetection_result = Returns ok_finding,
       checkTestCases_result = Returns ok_finding \<rparr>"

text \<open>
  A project file that asks for four analyzers, one of them twice, and extends no
  template.
\<close>

definition sample_sources :: config_sources where
  "sample_sources =
     \<lparr> project_analyzers = Some [''eslint'', ''custom-rules'', ''security'', ''eslint''],
       template_analyzers = None, package_analyzers = None \<rparr>"

section \<open>The rule engine (\<^verbatim>\<open>class RuleEngine\<close>, \<^verbatim>\<open>src/lib/report-generator.js\<close> lines 782--1122)\<close>

text \<open>
  A rule is a JavaScript object read from configuration. Every field may be absent
  (\<open>None\<close>); \<^verbatim>\<open>files\<close>, when present, is an array of glob patterns.
\<close>

record example =
  ex_bad :: "string option"
  ex_good :: "string option"

record rule =
  r_id :: "string option"
  r_category :: "string option"
  r_severity :: "string option"
  r_description :: "string option"
  r_pattern :: "string option"
  r_suggestion :: "string option"
  r_files :: "string list option"
  r_example :: "example option"

text \<open>\<^verbatim>\<open>!rule[field]\<close> on a string field: absent, or the empty string.\<close>

definition falsy :: "string option \<Rightarrow> bool" where
  "falsy x = (case x of None \<Rightarrow> True | Some s \<Rightarrow> s = [])"

subsection \<open>Validation of one rule (\<^verbatim>\<open>validateRule\<close>, lines 839--881)\<close>

datatype rule_error =
    MissingField nat string
  | InvalidSeverity "string option" string
  | InvalidRegex "string option" string

datatype rule_warning = IncompleteExample "string option" | NoExample "string option"

text \<open>The required fields, in the order of \<^verbatim>\<open>requiredFields\<close>.\<close>

definition required_fields :: "rule \<Rightarrow> (string \<times> string option) list" where
  "required_fields r =
     [(''id'', r_id r), (''category'', r_category r), (''severity'', r_severity r),
      (''description'', r_description r), (''pattern'', r_pattern r),
      (''suggestion'', r_suggestion r)]"

definition validSeverities :: "string list" where
  "validSeverities = [''CRITICAL'', ''ERROR'', ''WARNING'', ''INFO'']"

text \<open>
  \<^verbatim>\<open>validateRule(rule, index)\<close>. Whether \<^verbatim>\<open>new RegExp(pattern)\<close> succeeds is decided
  by the JavaScript engine; it enters as the parameter \<open>regex_ok\<close>. The check that
  \<^verbatim>\<open>files\<close> is an array holds by the type of \<^const>\<open>r_files\<close>.
\<close>

definition validateRule ::
  "(string \<Rightarrow> bool) \<Rightarrow> rule \<Rightarrow> nat \<Rightarrow> rule_error list \<times> rule_warning list" where
  "validateRule regex_ok r index =
     (let errs = map (\<lambda>(field, v). MissingField index field)
                     (filter (\<lambda>(field, v). falsy v) (required_fields r));
          errs = errs @
            (case r_severity r of
               Some s \<Rightarrow> if s \<noteq> [] \<and> s \<notin> set validSeverities
                         then [InvalidSeverity (r_id r) s] else []
             | None \<Rightarrow> []);
          errs = errs @
            (case r_pattern r of
               Some p \<Rightarrow> if p \<noteq> [] \<and> \<not> regex_ok p then [InvalidRegex (r_id r) p] else []
             | None \<Rightarrow> []);
          warns =
            (case r_example r of
               Some e \<Rightarrow> if falsy (ex_bad e) \<or> falsy (ex_good e) then [IncompleteExample (r_id r)]
                         else []
             | None \<Rightarrow> [NoExample (r_id r)])
      in (errs, warns))"

subsection \<open>Mutation (\<^verbatim>\<open>addRule\<close>, \<^verbatim>\<open>removeRule\<close>, \<^verbatim>\<open>updateRule\<close>, lines 1073--1121)\<close>

text \<open>
  Each operation either throws, leaving \<^verbatim>\<open>this.rules\<close> as it was, or returns
  \<^verbatim>\<open>true\<close> after changing it. The model returns the outcome and the rule list after
  the call.
\<close>

datatype engine_error =
    InvalidRule "rule_error list"
  | AlreadyExists "string option"
  | NotFound string
  | InvalidRuleUpdate "rule_error list"

definition addRule ::
  "(string \<Rightarrow> bool) \<Rightarrow> rule list \<Rightarrow> rule \<Rightarrow> (engine_error + bool) \<times> rule list" where
  "addRule regex_ok rules r =
     (let validation = validateRule regex_ok r (length rules)
      in if length (fst validation) > 0 then (Inl (InvalidRule (fst validation)), rules)
         else if list_ex (\<lambda>existingRule. r_id existingRule = r_id r) rules
              then (Inl (AlreadyExists (r_id r)), rules)
         else (Inr True, rules @ [r]))"

text \<open>\<^verbatim>\<open>findIndex(rule => rule.id === ruleId)\<close>: the first index, or \<open>None\<close> for -1.\<close>

fun findIndex :: "('a \<Rightarrow> bool) \<Rightarrow> 'a list \<Rightarrow> nat option" where
  "findIndex P [] = None"
| "findIndex P (x # xs) = (if P x then Some 0 else map_option Suc (findIndex P xs))"

text \<open>\<^verbatim>\<open>this.rules.splice(index, 1)\<close>.\<close>

definition splice1 :: "nat \<Rightarrow> 'a list \<Rightarrow> 'a list" where
  "splice1 i xs = take i xs @ drop (Suc i) xs"

definition removeRule :: "rule list \<Rightarrow> string \<Rightarrow> (engine_error + bool) \<times> rule list" where
  "removeRule rules ruleId =
     (case findIndex (\<lambda>r. r_id r = Some ruleId) rules of
        None \<Rightarrow> (Inl (NotFound ruleId), rules)
      | Some index \<Rightarrow> (Inr True, splice1 index rules))"

text \<open>
  The object spread \<^verbatim>\<open>{ ...rule, ...updates }\<close>: a key of \<^verbatim>\<open>updates\<close> overrides
  the rule's. \<^verbatim>\<open>updates\<close> is a partial rule, \<open>None\<close> for a key it does not have.
\<close>

definition spread :: "rule \<Rightarrow> rule \<Rightarrow> rule" where
  "spread r updates =
     \<lparr> r_id = (case r_id updates of None \<Rightarrow> r_id r | Some v \<Rightarrow> Some v),
       r_category = (case r_category updates of None \<Rightarrow> r_category r | Some v \<Rightarrow> Some v),
       r_severity = (case r_severity updates of None \<Rightarrow> r_severity r | Some v \<Rightarrow> Some v),
       r_description =
         (case r_description updates of None \<Rightarrow> r_description r | Some v \<Rightarrow> Some v),
       r_pattern = (case r_pattern updates of None \<Rightarrow> r_pattern r | Some v \<Rightarrow> Some v),
       r_suggestion = (case r_suggestion updates of None \<Rightarrow> r_suggestion r | Some v \<Rightarrow> Some v),
       r_files = (case r_files updates of None \<Rightarrow> r_files r | Some v \<Rightarrow> Some v),
       r_example = (case r_example updates of None \<Rightarrow> r_example r | Some v \<Rightarrow> Some v) \<rparr>"

definition updateRule ::
  "(string \<Rightarrow> bool) \<Rightarrow> rule list \<Rightarrow> string \<Rightarrow> rule \<Rightarrow> (engine_error + bool) \<times> rule list" where
  "updateRule regex_ok rules ruleId updates =
     (case findIndex (\<lambda>r. r_id r = Some ruleId) rules of
        None \<Rightarrow> (Inl (NotFound ruleId), rules)
      | Some index \<Rightarrow>
          (let updatedRule = spread (rules ! index) updates;
               validation = validateRule regex_ok updatedRule index
           in if length (fst validation) > 0
              then (Inl (InvalidRuleUpdate (fst validation)), rules)
              else (Inr True, rules[index := updatedRule])))"

subsection \<open>Matching rules to files (\<^verbatim>\<open>getRulesForFile\<close>, lines 943--960)\<close>

text \<open>
  The three global replacements, in the order the code applies them; each scans its
  input once from the left, as \<^verbatim>\<open>String.prototype.replace\<close> with a \<^verbatim>\<open>g\<close> regex does.
\<close>

fun replace_double_star :: "string \<Rightarrow> string" where
  "replace_double_star (c1 # c2 # rest) =
     (if c1 = CHR ''*'' \<and> c2 = CHR ''*'' then ''.*'' @ replace_double_star rest
      else c1 # replace_double_star (c2 # rest))"
| "replace_double_star cs = cs"

fun replace_star :: "string \<Rightarrow> string" where
  "replace_star [] = []"
| "replace_star (c # rest) =
     (if c = CHR ''*'' then ''[^/]*'' @ replace_star rest else c # replace_star rest)"

fun replace_question :: "string \<Rightarrow> string" where
  "replace_question [] = []"
| "replace_question (c # rest) =
     (if c = CHR ''?'' then ''.'' @ replace_question rest else c # replace_question rest)"

definition glob_to_regex_source :: "string \<Rightarrow> string" where
  "glob_to_regex_source pattern = replace_question (replace_star (replace_double_star pattern))"

text \<open>
  The regular expressions these sources denote, for the fragment a glob of ordinary
  characters, \<^verbatim>\<open>.\<close>, \<^verbatim>\<open>/\<close>, \<^verbatim>\<open>*\<close> and \<^verbatim>\<open>?\<close> translates to: literal characters,
  \<^verbatim>\<open>.\<close> (any character but a line terminator), \<^verbatim>\<open>.*\<close> and \<^verbatim>\<open>[^/]*\<close>. A source
  with any other regex metacharacter is outside the fragment (\<open>None\<close>).
\<close>

datatype regex_item = Lit char | AnyChar | AnyStar | NotSlashStar

definition metachars :: "char list" where
  "metachars = CHR 0x5C # ''^$.|?*+()[]{}''"

function parse_regex :: "string \<Rightarrow> regex_item list option" where
  "parse_regex [] = Some []"
| "parse_regex (c # rest) =
     (if c = CHR ''['' then
        (if take 4 rest = ''^/]*'' then map_option (Cons NotSlashStar) (parse_regex (drop 4 rest))
         else None)
      else if c = CHR ''.'' then
        (if take 1 rest = ''*'' then map_option (Cons AnyStar) (parse_regex (drop 1 rest))
         else map_option (Cons AnyChar) (parse_regex rest))
      else if c \<in> set metachars then None
      else map_option (Cons (Lit c)) (parse_regex rest))"
  by pat_completeness auto
termination
  by (relation "measure length") auto

text \<open>\<^verbatim>\<open>.\<close> does not match a line feed or a carriage return.\<close>

definition line_terminator :: "char \<Rightarrow> bool" where
  "line_terminator c = (c = CHR 0x0A \<or> c = CHR 0x0D)"

text \<open>The items match a prefix of the string.\<close>

fun match_here :: "regex_item list \<Rightarrow> string \<Rightarrow> bool" where
  "match_here [] s = True"
| "match_here (Lit c # items) s =
     (case s of [] \<Rightarrow> False | x # xs \<Rightarrow> x = c \<and> match_here items xs)"
| "match_here (AnyChar # items) s =
     (case s of [] \<Rightarrow> False | x # xs \<Rightarrow> \<not> line_terminator x \<and> match_here items xs)"
| "match_here (AnyStar # items) s =
     (match_here items s \<or>
      (case s of [] \<Rightarrow> False
       | x # xs \<Rightarrow> \<not> line_terminator x \<and> match_here (AnyStar # items) xs))"
| "match_here (NotSlashStar # items) s =
     (match_here items s \<or>
      (case s of [] \<Rightarrow> False
       | x # xs \<Rightarrow> x \<noteq> CHR ''/'' \<and> match_here (NotSlashStar # items) xs))"

text \<open>\<^verbatim>\<open>regex.test(s)\<close> without anchors: the items match at some position of the string.\<close>

fun regex_test :: "regex_item list \<Rightarrow> string \<Rightarrow> bool" where
  "regex_test items [] = match_here items []"
| "regex_test items (x # xs) = (match_here items (x # xs) \<or> regex_test items xs)"

text \<open>
  \<^verbatim>\<open>rule.files.some(pattern => new RegExp(...).test(filePath))\<close>: the patterns in
  order, stopping at the first that matches.
\<close>

fun some_pattern_matches :: "(string \<Rightarrow> string) \<Rightarrow> string list \<Rightarrow> string \<Rightarrow> bool option" where
  "some_pattern_matches translate [] filePath = Some False"
| "some_pattern_matches translate (pattern # ps) filePath =
     (case parse_regex (translate pattern) of
        None \<Rightarrow> None
      | Some items \<Rightarrow>
          if regex_test items filePath then Some True
          else some_pattern_matches translate ps filePath)"

text \<open>The predicate of the \<^verbatim>\<open>filter\<close>: \<open>translate\<close> is the glob-to-regex translation.\<close>

definition rule_applies :: "(string \<Rightarrow> string) \<Rightarrow> rule \<Rightarrow> string \<Rightarrow> bool option" where
  "rule_applies translate r filePath =
     (case r_files r of
        None \<Rightarrow> Some True
      | Some fs \<Rightarrow> if length fs = 0 then Some True
                   else some_pattern_matches translate fs filePath)"

fun filter_rules :: "(string \<Rightarrow> string) \<Rightarrow> rule list \<Rightarrow> string \<Rightarrow> rule list option" where
  "filter_rules translate [] filePath = Some []"
| "filter_rules translate (r # rs) filePath =
     (case rule_applies translate r filePath of
        None \<Rightarrow> None
      | Some b \<Rightarrow> map_option (\<lambda>rest. if b then r # rest else rest)
                   (filter_rules translate rs filePath))"

definition getRulesForFile :: "rule list \<Rightarrow> string \<Rightarrow> rule list option" where
  "getRulesForFile rules filePath = filter_rules glob_to_regex_source rules filePath"

subsection \<open>The translation as the specification words it\<close>

text \<open>
  One pass over the glob: \<^verbatim>\<open>**\<close> becomes \<^verbatim>\<open>.*\<close> (any sequence, separators
  included), a single \<^verbatim>\<open>*\<close> becomes \<^verbatim>\<open>[^/]*\<close> (any sequence without a separator),
  \<^verbatim>\<open>?\<close> becomes \<^verbatim>\<open>.\<close> (exactly one character).
\<close>

fun spec_glob_to_regex_source :: "string \<Rightarrow> string" where
  "spec_glob_to_regex_source (c1 # c2 # rest) =
     (if c1 = CHR ''*'' \<and> c2 = CHR ''*'' then ''.*'' @ spec_glob_to_regex_source rest
      else if c1 = CHR ''*'' then ''[^/]*'' @ spec_glob_to_regex_source (c2 # rest)
      else if c1 = CHR ''?'' then ''.'' @ spec_glob_to_regex_source (c2 # rest)
      else c1 # spec_glob_to_regex_source (c2 # rest))"
| "spec_glob_to_regex_source [c] =
     (if c = CHR ''*'' then ''[^/]*'' else if c = CHR ''?'' then ''.'' else [c])"
| "spec_glob_to_regex_source [] = []"

definition spec_rulesForFile :: "rule list \<Rightarrow> string \<Rightarrow> rule list option" where
  "spec_rulesForFile rules filePath = filter_rules spec_glob_to_regex_source rules filePath"

subsection \<open>Sample rules\<close>

definition no_rule :: rule where
  "no_rule = \<lparr> r_id = None, r_category = None, r_severity = None, r_description = None,
     r_pattern = None, r_suggestion = None, r_files = None, r_example = None \<rparr>"

definition rule_a :: rule where
  "rule_a = \<lparr> r_id = Some ''no-eval'', r_category = Some ''security'',
     r_severity = Some ''CRITICAL'', r_description = Some ''eval is forbidden'',
     r_pattern = Some ''eval'', r_suggestion = Some ''remove the call'',
     r_files = None, r_example = None \<rparr>"

definition rule_b :: rule where
  "rule_b = \<lparr> r_id = Some ''no-console'', r_category = Some ''style'',
     r_severity = Some ''WARNING'', r_description = Some ''console output'',
     r_pattern = Some ''console'', r_suggestion = Some ''use the logger'',
     r_files = Some [''src/**/*.ts''], r_example = None \<rparr>"

section \<open>The custom-rules analyzer (\<^verbatim>\<open>checkCustomRules\<close>, \<^verbatim>\<open>src/lib/analyzer-base.js\<close> lines 611--674)\<close>

text \<open>The rule engine as the analyzer sees it: its \<^verbatim>\<open>rules\<close> property may be absent.\<close>

record rule_engine =
  engine_rules :: "rule list option"

text \<open>
  \<^verbatim>\<open>content.substring(0, match.index).split('\n').length\<close>: one more than the number
  of line feeds before the match.
\<close>

definition line_of :: "string \<Rightarrow> nat \<Rightarrow> nat" where
  "line_of content index = Suc (length (filter (\<lambda>c. c = CHR 0x0A) (take index content)))"

text \<open>
  The matches of one rule in one file. The JavaScript regex engine enters as the
  parameter \<open>exec_all\<close>: the matches \<^verbatim>\<open>(index, text)\<close> of a pattern in a content, in
  order, as a search that moves past every match finds them, or \<open>None\<close> when
  \<^verbatim>\<open>new RegExp(pattern, 'gm')\<close> throws (the inner \<^verbatim>\<open>catch\<close> then warns and the rule
  contributes nothing).

  The \<^verbatim>\<open>while\<close> loop of the source calls \<^verbatim>\<open>regex.exec\<close> until it returns
  \<^verbatim>\<open>null\<close>. After an empty match \<^verbatim>\<open>exec\<close> leaves \<^verbatim>\<open>lastIndex\<close> where it is, so
  the loop finds the same match again and again and pushes a violation each time: the
  call does not return, which is the result \<open>None\<close> here. A rule without
  \<^verbatim>\<open>pattern\<close> is such a case for every content, because
  \<^verbatim>\<open>new RegExp(undefined, 'gm')\<close> is the empty pattern and matches at index 0.
\<close>

definition rule_violations ::
  "(string \<Rightarrow> string \<Rightarrow> (nat \<times> string) list option) \<Rightarrow> string \<Rightarrow> string \<Rightarrow> rule
    \<Rightarrow> violation list option"
  where
  "rule_violations exec_all relativePath content r =
     (case r_pattern r of
        None \<Rightarrow> None
      | Some p \<Rightarrow>
          (case exec_all p content of
             None \<Rightarrow> Some []
           | Some ms \<Rightarrow>
               if list_ex (\<lambda>(index, matched). matched = []) ms then None
               else
                 Some (map (\<lambda>(index, matched).
                     \<lparr> v_file = relativePath, v_line = line_of content index, v_rule = r_id r,
                       v_severity = r_severity r, v_message = r_description r,
                       v_suggestion = r_suggestion r, v_matchedText = matched \<rparr>) ms)))"

text \<open>The loop over the rules of one file; \<open>None\<close> when the loop of one rule never ends.\<close>

fun file_violations ::
  "(string \<Rightarrow> string \<Rightarrow> (nat \<times> string) list option) \<Rightarrow> string \<Rightarrow> string \<Rightarrow> rule list
    \<Rightarrow> violation list option" where
  "file_violations exec_all relativePath content [] = Some []"
| "file_violations exec_all relativePath content (r # rs) =
     (case rule_violations exec_all relativePath content r of
        None \<Rightarrow> None
      | Some found \<Rightarrow>
          map_option (\<lambda>rest. found @ rest) (file_violations exec_all relativePath content rs))"

text \<open>
  The loop over the source files, with the files read so far. A file is a relative path
  with its content, \<open>None\<close> when \<^verbatim>\<open>readFileSync\<close> throws (the outer \<^verbatim>\<open>catch\<close> warns
  and the file contributes nothing). \<^verbatim>\<open>getRulesForFile\<close> is called outside the
  \<^verbatim>\<open>try\<close>. The result is \<open>None\<close> when the call returns no Finding: a glob of a rule
  is outside the modelled fragment, or the loop of a rule never ends.
\<close>

fun scan_files ::
  "(string \<Rightarrow> string \<Rightarrow> (nat \<times> string) list option) \<Rightarrow> rule list
    \<Rightarrow> (string \<times> string option) list \<Rightarrow> (violation list \<times> string list) option" where
  "scan_files exec_all rules [] = Some ([], [])"
| "scan_files exec_all rules ((relativePath, content) # files) =
     (case getRulesForFile rules relativePath of
        None \<Rightarrow> None
      | Some rulesForFile \<Rightarrow>
          (case (case content of
                   None \<Rightarrow> Some []
                 | Some c \<Rightarrow> file_violations exec_all relativePath c rulesForFile) of
             None \<Rightarrow> None
           | Some here \<Rightarrow>
               (case scan_files exec_all rules files of
                  None \<Rightarrow> None
                | Some (found, reads) \<Rightarrow> Some (here @ found, relativePath # reads))))"

text \<open>
  \<^verbatim>\<open>checkCustomRules(ruleEngine)\<close>: the Finding and the list of files it read, or
  \<open>None\<close> when it returns no Finding. \<open>files\<close> is what \<^verbatim>\<open>getSourceFiles\<close> would
  list.
\<close>

definition checkCustomRules ::
  "(string \<Rightarrow> string \<Rightarrow> (nat \<times> string) list option) \<Rightarrow> rule_engine option
    \<Rightarrow> (string \<times> string option) list \<Rightarrow> (finding \<times> string list) option" where
  "checkCustomRules exec_all ruleEngine files =
     (case ruleEngine of
        None \<Rightarrow> Some (failure ''No custom rules defined'', [])
      | Some engine \<Rightarrow>
          (case engine_rules engine of
             None \<Rightarrow> Some (failure ''No custom rules defined'', [])
           | Some rules \<Rightarrow>
               if length rules = 0 then Some (failure ''No custom rules defined'', [])
               else
                 (case scan_files exec_all rules files of
                    None \<Rightarrow> None
                  | Some (found, reads) \<Rightarrow>
                      Some (empty_finding \<lparr> success := Some True,
                              violations := Some (length found),
                              details := Some found \<rparr>, reads))))"

text \<open>\<^verbatim>\<open>!ruleEngine || !ruleEngine.rules || ruleEngine.rules.length === 0\<close>.\<close>

definition no_rules_defined :: "rule_engine option \<Rightarrow> bool" where
  "no_rules_defined ruleEngine =
     (case ruleEngine of
        None \<Rightarrow> True
      | Some engine \<Rightarrow> (case engine_rules engine of None \<Rightarrow> True | Some rules \<Rightarrow> rules = []))"

text \<open>The analyzers of a run whose custom-rules analyzer is the one modelled above.\<close>

definition with_custom_rules ::
  "analyzer_results \<Rightarrow> (finding \<times> string list) option \<Rightarrow> analyzer_results" where
  "with_custom_rules az result =
     (case result of
        None \<Rightarrow> az
      | Some (f, reads) \<Rightarrow> az \<lparr> checkCustomRules_result := Returns f \<rparr>)"

text \<open>A regex engine for the samples: the literal pattern \<^verbatim>\<open>eval\<close> at the start of a content.\<close>

definition sample_exec :: "string \<Rightarrow> string \<Rightarrow> (nat \<times> string) list option" where
  "sample_exec p content = (if take (length p) content = p then Some [(0, p)] else Some [])"

text \<open>A regex engine that finds one empty match, as the empty pattern does in any content.\<close>

definition empty_match_exec :: "string \<Rightarrow> string \<Rightarrow> (nat \<times> string) list option" where
  "empty_match_exec p content = Some [(0, [])]"

section \<open>Two-tier coverage weighting (\<^verbatim>\<open>src/lib/analyzer-base.js\<close> lines 1358--1440)\<close>

text \<open>\<^verbatim>\<open>path.basename\<close> for POSIX paths: the part after the last separator, trailing separators dropped.\<close>

definition basename :: "string \<Rightarrow> string" where
  "basename filePath =
     rev (takeWhile (\<lambda>c. c \<noteq> CHR ''/'') (dropWhile (\<lambda>c. c = CHR ''/'') (rev filePath)))"

text \<open>\<^verbatim>\<open>s.startsWith(needle)\<close> and \<^verbatim>\<open>s.includes(needle)\<close>.\<close>

fun startsWith :: "string \<Rightarrow> string \<Rightarrow> bool" where
  "startsWith s [] = True"
| "startsWith [] (n # needle) = False"
| "startsWith (c # s) (n # needle) = (c = n \<and> startsWith s needle)"

fun str_includes :: "string \<Rightarrow> string \<Rightarrow> bool" where
  "str_includes [] needle = startsWith [] needle"
| "str_includes (c # s) needle = (startsWith (c # s) needle \<or> str_includes s needle)"

text \<open>\<^verbatim>\<open>isCoreLogicFile(filePath)\<close>, lines 1416--1440.\<close>

definition isCoreLogicFile :: "string \<Rightarrow> bool" where
  "isCoreLogicFile filePath =
     (let fileName = basename filePath
      in if str_includes fileName ''controller'' \<or> str_includes fileName ''service'' then True
         else if str_includes fileName ''util'' \<or> str_includes fileName ''helper'' then True
         else if str_includes fileName ''config'' \<or> str_includes fileName ''constant'' then True
         else if str_includes fileName ''validation'' then True
         else if str_includes fileName ''route'' \<or> str_includes fileName ''middleware'' then False
         else True)"

text \<open>
  An entry of the coverage data: the \<^verbatim>\<open>statements\<close> property of the per-file object.
  \<^verbatim>\<open>fileCoverage.statements?.pct || 0\<close> is 0 unless \<^verbatim>\<open>statements\<close> is a summary
  object with a \<^verbatim>\<open>pct\<close>.
\<close>

record file_coverage =
  fc_statements :: "stmt_field option"

definition statements_pct :: "file_coverage \<Rightarrow> rat" where
  "statements_pct fileCoverage =
     (case fc_statements fileCoverage of
        Some (StmtObject (Some p)) \<Rightarrow> p
      | _ \<Rightarrow> 0)"

text \<open>
  The accumulators of the loop over \<^verbatim>\<open>Object.keys(coverageData)\<close>, lines 1359--1381:
  \<^verbatim>\<open>coreLogicCoverage\<close>, \<^verbatim>\<open>coreLogicFiles\<close>, \<^verbatim>\<open>infrastructureCoverage\<close>,
  \<^verbatim>\<open>infrastructureFiles\<close>. The percentages are added as doubles; the counters are
  small integers.
\<close>

fun coverage_step ::
  "rat \<times> nat \<times> rat \<times> nat \<Rightarrow> string \<times> file_coverage \<Rightarrow> rat \<times> nat \<times> rat \<times> nat" where
  "coverage_step (coreCov, coreFiles, infraCov, infraFiles) (filePath, fileCoverage) =
     (if filePath = ''total'' then (coreCov, coreFiles, infraCov, infraFiles)
      else
        (let statements = statements_pct fileCoverage
         in if isCoreLogicFile filePath
            then (fl (coreCov + statements), Suc coreFiles, infraCov, infraFiles)
            else (coreCov, coreFiles, fl (infraCov + statements), Suc infraFiles)))"

text \<open>
  \<^verbatim>\<open>Math.round(x * 100) / 100\<close> and \<^verbatim>\<open>Math.round(x * 10) / 100\<close>: the product and the
  quotient are double operations, \<^verbatim>\<open>Math.round\<close> is \<open>\<lfloor>y + 1 / 2\<rfloor>\<close> on the double
  product.
\<close>

definition round2 :: "rat \<Rightarrow> rat" where
  "round2 x = fl (of_int \<lfloor>fl (x * 100) + 1 / 2\<rfloor> / 100)"

definition round_points :: "rat \<Rightarrow> rat" where
  "round_points x = fl (of_int \<lfloor>fl (x * 10) + 1 / 2\<rfloor> / 100)"

text \<open>
  \<^verbatim>\<open>calculateWeightedCoverage(coverageData)\<close>, lines 1358--1411. The literals
  \<^verbatim>\<open>0.8\<close> and \<^verbatim>\<open>0.2\<close> are the doubles nearest to 8/10 and 2/10.
\<close>

definition calculateWeightedCoverage :: "(string \<times> file_coverage) list \<Rightarrow> weighted_coverage" where
  "calculateWeightedCoverage coverageData =
     (let (coreCov, coreFiles, infraCov, infraFiles) = foldl coverage_step (0, 0, 0, 0) coverageData;
          avgCoreLogicCoverage = (if coreFiles > 0 then fl (coreCov / of_nat coreFiles) else 0);
          avgInfrastructureCoverage =
            (if infraFiles > 0 then fl (infraCov / of_nat infraFiles) else 0);
          weighted = fl (fl (avgCoreLogicCoverage * fl (8 / 10)) +
                         fl (avgInfrastructureCoverage * fl (2 / 10)))
      in \<lparr> weightedScore = Some (round2 weighted),
           coreLogicCoverage = round2 avgCoreLogicCoverage,
           infrastructureCoverage = round2 avgInfrastructureCoverage,
           coreLogicFiles = coreFiles,
           infrastructureFiles = infraFiles,
           breakdown_coreLogic =
             \<lparr> tier_coverage = avgCoreLogicCoverage, tier_files = coreFiles,
               tier_weight = fl (8 / 10),
               tier_points = round_points (fl (avgCoreLogicCoverage * fl (8 / 10))) \<rparr>,
           breakdown_infrastructure =
             \<lparr> tier_coverage = avgInfrastructureCoverage, tier_files = infraFiles,
               tier_weight = fl (2 / 10),
               tier_points = round_points (fl (avgInfrastructureCoverage * fl (2 / 10))) \<rparr> \<rparr>)"

subsection \<open>Vocabulary for the properties of the coverage weighting\<close>

text \<open>
  The mean of a list of percentages as the code computes it: the double sum from left
  to right, divided by the number of files; the code takes the mean of no files to be 0.
\<close>

definition mean :: "rat list \<Rightarrow> rat" where
  "mean xs = (if xs = [] then 0 else fl (double_sum xs / of_nat (length xs)))"

text \<open>\<^verbatim>\<open>c * 0.8 + i * 0.2\<close> in double arithmetic.\<close>

definition weighted :: "rat \<Rightarrow> rat \<Rightarrow> rat" where
  "weighted c i = fl (fl (c * fl (8 / 10)) + fl (i * fl (2 / 10)))"

text \<open>Rounding to two decimal places on exact numbers, a tie upwards.\<close>

definition exact_round2 :: "rat \<Rightarrow> rat" where
  "exact_round2 x = of_int \<lfloor>x * 100 + 1 / 2\<rfloor> / 100"

text \<open>The statement percentages of the core-logic files and of the infrastructure files.\<close>

definition core_pcts :: "(string \<times> file_coverage) list \<Rightarrow> rat list" where
  "core_pcts coverageData =
     map (\<lambda>e. statements_pct (snd e))
       (filter (\<lambda>e. fst e \<noteq> ''total'' \<and> isCoreLogicFile (fst e)) coverageData)"

definition infra_pcts :: "(string \<times> file_coverage) list \<Rightarrow> rat list" where
  "infra_pcts coverageData =
     map (\<lambda>e. statements_pct (snd e))
       (filter (\<lambda>e. fst e \<noteq> ''total'' \<and> \<not> isCoreLogicFile (fst e)) coverageData)"

text \<open>The patterns of the two classes, on a file name.\<close>

definition core_pattern :: "string \<Rightarrow> bool" where
  "core_pattern fileName =
     list_ex (str_includes fileName)
       [''controller'', ''service'', ''util'', ''helper'', ''config'', ''constant'', ''validation'']"

definition infrastructure_pattern :: "string \<Rightarrow> bool" where
  "infrastructure_pattern fileName = list_ex (str_includes fileName) [''route'', ''middleware'']"

text \<open>Sample coverage data.\<close>

definition file_pct :: "rat \<Rightarrow> file_coverage" where
  "file_pct p = \<lparr> fc_statements = Some (StmtObject (Some p)) \<rparr>"

definition coverage_90_50 :: "(string \<times> file_coverage) list" where
  "coverage_90_50 =
     [(''total'', file_pct 70), (''/app/src/user.service.js'', file_pct 100),
      (''/app/src/order.controller.js'', file_pct 80), (''/app/src/index.js'', file_pct 90),
      (''/app/src/user.routes.js'', file_pct 40), (''/app/src/auth.middleware.js'', file_pct 60)]"

definition coverage_third :: "(string \<times> file_coverage) list" where
  "coverage_third =
     [(''total'', file_pct (fl (3333 / 100))),
      (''/app/src/user.service.js'', file_pct (fl (3333 / 100)))]"

text \<open>A core-logic file covered to 75 percent, infrastructure files to 0 and 40.85 percent.\<close>

definition coverage_75_20 :: "(string \<times> file_coverage) list" where
  "coverage_75_20 =
     [(''/app/src/user.service.js'', file_pct 75), (''/app/src/user.routes.js'', file_pct 0),
      (''/app/src/auth.middleware.js'', file_pct (fl (4085 / 100)))]"

section \<open>The coverage fallback curve (second copy of \<^verbatim>\<open>CodeReviewTool\<close>, \<^verbatim>\<open>src/unnamed/part_001\<close>)\<close>

text \<open>
  \<^verbatim>\<open>src/unnamed/part_001\<close> holds, from line 1445 on, a second copy of the class
  \<^verbatim>\<open>CodeReviewTool\<close> of \<^verbatim>\<open>src/lib/index.js\<close>. It differs in the weight table, in
  the \<^verbatim>\<open>tests\<close> and \<^verbatim>\<open>test-cases\<close> branches of \<^verbatim>\<open>getAnalyzerScore\<close>, in
  \<^verbatim>\<open>generateReports\<close>, and it has the method \<^verbatim>\<open>calculateWeightedTestScore\<close>, which
  \<^verbatim>\<open>src/lib/index.js\<close> lacks.
\<close>

text \<open>
  \<^verbatim>\<open>findings.coverage?.statements || 0\<close> as the operand of the comparisons and products
  that follow: a summary object converts to \<^verbatim>\<open>NaN\<close> there.
\<close>

definition statementsCoverage :: "finding \<Rightarrow> jsnum" where
  "statementsCoverage f =
     (case coverage f of
        Some (CovObject (Some (StmtNumber n))) \<Rightarrow> Num n
      | Some (CovObject (Some (StmtObject p))) \<Rightarrow> NaN
      | _ \<Rightarrow> Num 0)"

text \<open>
  \<^verbatim>\<open>calculateWeightedTestScore(findings)\<close>, \<^verbatim>\<open>src/unnamed/part_001\<close> lines 1640--1673.
  The products are double products, and the literals \<^verbatim>\<open>1.1\<close> and \<^verbatim>\<open>0.8\<close> the
  doubles nearest to 11/10 and 8/10.
\<close>

definition calculateWeightedTestScore :: "finding \<Rightarrow> jsnum" where
  "calculateWeightedTestScore f =
     (let fallback =
        (let s = statementsCoverage f
         in if js_ge s 70 then Math_min (Num 100) (js_mul s (Num (fl (11 / 10))))
            else if js_ge s 40 then s
            else Math_max (Num 0) (js_mul s (Num (fl (8 / 10)))))
      in case weightedCoverage f of
           None \<Rightarrow> fallback
         | Some wc \<Rightarrow>
             (case weightedScore wc of
                None \<Rightarrow> fallback
              | Some ws \<Rightarrow> Math_min (Num 100) (Num ws)))"

text \<open>
  The \<^verbatim>\<open>tests\<close> branch of \<^verbatim>\<open>getAnalyzerScore\<close> in that copy, lines 1692--1699: the
  weighted score when \<^verbatim>\<open>findings.coverage\<close> is an object, the bare coverage otherwise.
\<close>

definition getAnalyzerScore_tests2 :: "finding \<Rightarrow> jsnum" where
  "getAnalyzerScore_tests2 f =
     (case coverage f of
        Some (CovObject s) \<Rightarrow> Math_min (Num 100) (calculateWeightedTestScore f)
      | Some (CovNumber c) \<Rightarrow> Math_min (Num 100) (Num c)
      | None \<Rightarrow> Math_min (Num 100) (Num 0))"

text \<open>The curve as the code computes it, in double arithmetic, on a raw percentage.\<close>

definition double_curve :: "rat \<Rightarrow> rat" where
  "double_curve s =
     (if s \<ge> 70 then min 100 (fl (s * fl (11 / 10))) else if s \<ge> 40 then s
      else max 0 (fl (s * fl (8 / 10))))"

text \<open>The curve as the specification words it, on a raw percentage.\<close>

definition spec_fallback_curve :: "rat \<Rightarrow> rat" where
  "spec_fallback_curve s =
     (if s \<ge> 70 then min 100 (s * (11 / 10)) else if s \<ge> 40 then s else s * (8 / 10))"

text \<open>
  What \<^verbatim>\<open>checkTests\<close> returns for 80 percent statement coverage, and a finding that
  carries the same percentage in a coverage object.
\<close>

definition tests_80 :: finding where
  "tests_80 = empty_finding \<lparr> success := Some True, coverage := Some (CovNumber 80) \<rparr>"

definition tests_object_80 :: finding where
  "tests_object_80 =
     empty_finding \<lparr> success := Some True, coverage := Some (CovObject (Some (StmtNumber 80))) \<rparr>"

section \<open>Report selection (\<^verbatim>\<open>generateReports\<close> and the \<^verbatim>\<open>analyze\<close> command)\<close>

text \<open>
  A renderer writes a file and returns its descriptor, or throws; the selection only
  sees that outcome, so every renderer enters as its outcome. A descriptor is modelled
  by the path of the file. The outcome of a \<^verbatim>\<open>case\<close> that calls the analyzer first
  (\<^verbatim>\<open>generateCursorAIPrompts\<close>, \<^verbatim>\<open>performAICodeAnalysis\<close>) is the outcome of the whole
  \<^verbatim>\<open>case\<close>.
\<close>

type_synonym artifact = string

datatype rendering = Rendered artifact | RenderFails string

record reporter_results =
  generateHTMLReport_result :: rendering
  generateJSONReport_result :: rendering
  generateMarkdownReport_result :: rendering
  generateAIPrompts_result :: rendering
  generateAISummaryMD_result :: rendering
  aiAnalysis_result :: rendering

text \<open>The options object handed to \<^verbatim>\<open>analyze\<close> and on to \<^verbatim>\<open>generateReports\<close>.\<close>

record tool_options =
  opt_reporters :: "string list option"
  opt_aiAnalysis :: bool
  opt_aiPrompts :: bool

text \<open>
  The flags of the \<^verbatim>\<open>analyze\<close> command that bear on reports; \<open>cli_reporters\<close> is the
  \<^verbatim>\<open>--reporters\<close> value after \<^verbatim>\<open>split(',')\<close> and \<^verbatim>\<open>trim\<close>.
\<close>

record cli_options =
  cli_reporters :: "string list option"
  cli_aiPrompts :: bool
  cli_aiAnalysis :: bool
  cli_noReports :: bool

text \<open>\<^verbatim>\<open>[...(toolOptions.reporters || []), name]\<close>.\<close>

definition append_reporter :: "string list option \<Rightarrow> string \<Rightarrow> string list option" where
  "append_reporter rs name = Some ((case rs of None \<Rightarrow> [] | Some xs \<Rightarrow> xs) @ [name])"

text \<open>
  \<^verbatim>\<open>src/bin/cli.js\<close> lines 129--153: \<^verbatim>\<open>toolOptions\<close> carries \<^verbatim>\<open>reporters\<close> and
  no \<^verbatim>\<open>aiPrompts\<close> or \<^verbatim>\<open>aiAnalysis\<close> key.
\<close>

definition toolOptions :: "cli_options \<Rightarrow> tool_options" where
  "toolOptions options =
     (let rs = cli_reporters options;
          rs = (if cli_aiPrompts options then append_reporter rs ''ai-prompts'' else rs);
          rs = (if cli_aiAnalysis options then append_reporter rs ''ai-analysis'' else rs);
          rs = (if cli_noReports options then Some [] else rs)
      in \<lparr> opt_reporters = rs, opt_aiAnalysis = False, opt_aiPrompts = False \<rparr>)"

text \<open>\<^verbatim>\<open>getEnabledReporters\<close> of the configuration manager: \<^verbatim>\<open>config.reporters || ['html', 'json']\<close>.\<close>

definition getEnabledReporters :: "string list option \<Rightarrow> string list" where
  "getEnabledReporters configReporters =
     (case configReporters of Some rs \<Rightarrow> rs | None \<Rightarrow> [''html'', ''json''])"

text \<open>The reports object: report key to descriptor, in insertion order.\<close>

type_synonym reports = "(string \<times> artifact) list"

text \<open>An assignment \<^verbatim>\<open>reports.key = await renderer(...)\<close> inside the \<^verbatim>\<open>try\<close>.\<close>

definition assign_report :: "string \<Rightarrow> rendering \<Rightarrow> reports \<Rightarrow> reports" where
  "assign_report key r reports =
     (case r of Rendered a \<Rightarrow> AList.update key a reports | RenderFails msg \<Rightarrow> reports)"

subsection \<open>\<^verbatim>\<open>generateReports\<close> of \<^verbatim>\<open>src/lib/index.js\<close>, lines 330--363\<close>

definition report_step :: "reporter_results \<Rightarrow> reports \<Rightarrow> string \<Rightarrow> reports" where
  "report_step rr reports reporterName =
     (if reporterName = ''html'' then assign_report ''html'' (generateHTMLReport_result rr) reports
      else if reporterName = ''json'' then assign_report ''json'' (generateJSONReport_result rr) reports
      else if reporterName = ''markdown''
        then assign_report ''markdown'' (generateMarkdownReport_result rr) reports
      else if reporterName = ''ai-prompts''
        then assign_report ''aiPrompts'' (generateAIPrompts_result rr) reports
      else reports)"

definition generateReports ::
  "reporter_results \<Rightarrow> string list option \<Rightarrow> tool_options \<Rightarrow> reports" where
  "generateReports rr configReporters options =
     (let enabledReporters =
            (case opt_reporters options of
               Some rs \<Rightarrow> rs
             | None \<Rightarrow> getEnabledReporters configReporters)
      in foldl (report_step rr) [] enabledReporters)"

subsection \<open>\<^verbatim>\<open>generateReports\<close> of the second copy, \<^verbatim>\<open>src/unnamed/part_001\<close> lines 1793--1866\<close>

definition isAITesting :: "tool_options \<Rightarrow> bool" where
  "isAITesting options =
     (opt_aiAnalysis options \<or> opt_aiPrompts options \<or>
      (case opt_reporters options of
         Some rs \<Rightarrow> ''ai-analysis'' \<in> set rs \<or> ''ai-prompts'' \<in> set rs
       | None \<Rightarrow> False))"

text \<open>\<^verbatim>\<open>options.reporters && options.reporters.includes(name)\<close>.\<close>

definition requested :: "tool_options \<Rightarrow> string \<Rightarrow> bool" where
  "requested options name =
     (case opt_reporters options of Some rs \<Rightarrow> name \<in> set rs | None \<Rightarrow> False)"

definition report_step2 :: "reporter_results \<Rightarrow> tool_options \<Rightarrow> reports \<Rightarrow> string \<Rightarrow> reports" where
  "report_step2 rr options reports reporterName =
     (if reporterName = ''html'' then assign_report ''html'' (generateHTMLReport_result rr) reports
      else if reporterName = ''ai-summary''
        then assign_report ''aiSummary'' (generateAISummaryMD_result rr) reports
      else if reporterName = ''json'' then
        (if requested options ''json''
         then assign_report ''json'' (generateJSONReport_result rr) reports else reports)
      else if reporterName = ''markdown'' then
        (if requested options ''markdown''
         then assign_report ''markdown'' (generateMarkdownReport_result rr) reports else reports)
      else if reporterName = ''ai-prompts'' then
        (if requested options ''ai-prompts''
         then assign_report ''aiPrompts'' (generateAIPrompts_result rr) reports else reports)
      else if reporterName = ''ai-analysis'' then
        (if requested options ''ai-analysis''
         then assign_report ''aiAnalysis'' (aiAnalysis_result rr) reports else reports)
      else reports)"

definition generateReports2 ::
  "reporter_results \<Rightarrow> string list option \<Rightarrow> tool_options \<Rightarrow> reports" where
  "generateReports2 rr configReporters options =
     (let enabledReporters =
            (case opt_reporters options of
               Some rs \<Rightarrow> rs
             | None \<Rightarrow> getEnabledReporters configReporters);
          enabledReporters =
            (if isAITesting options then [''html'', ''ai-summary''] else [''html''])
      in foldl (report_step2 rr options) [] enabledReporters)"

subsection \<open>Sample runs\<close>

definition all_rendered :: reporter_results where
  "all_rendered =
     \<lparr> generateHTMLReport_result = Rendered ''reports/code-review-report.html'',
       generateJSONReport_result = Rendered ''reports/code-review-report.json'',
       generateMarkdownReport_result = Rendered ''reports/code-review-report.md'',
       generateAIPrompts_result = Rendered ''reports/ai-prompts.md'',
       generateAISummaryMD_result = Rendered ''reports/ai-review-summary.md'',
       aiAnalysis_result = Rendered ''ai-analysis'' \<rparr>"

text \<open>\<^verbatim>\<open>analyze\<close> with no flag, and \<^verbatim>\<open>analyze --ai-prompts\<close>; neither gives \<^verbatim>\<open>--reporters\<close>.\<close>

definition plain_run :: cli_options where
  "plain_run = \<lparr> cli_reporters = None, cli_aiPrompts = False, cli_aiAnalysis = False,
     cli_noReports = False \<rparr>"

definition ai_prompts_run :: cli_options where
  "ai_prompts_run = \<lparr> cli_reporters = None, cli_aiPrompts = True, cli_aiAnalysis = False,
     cli_noReports = False \<rparr>"

section \<open>Properties of the double rounding\<close>

text \<open>
  The facts about \<^const>\<open>fl\<close> that the properties of the scoring code rest on: it fixes
  0 and commutes with negation, it is monotone, it maps a double to itself, and it keeps
  integers and half-integers what they are.
\<close>

lemma round_even_cases: "round_even y = \<lfloor>y\<rfloor> \<or> round_even y = \<lfloor>y\<rfloor> + 1"
  by (simp add: round_even_def Let_def)

lemma round_even_of_int [simp]: "round_even (of_int n) = n"
  by (simp add: round_even_def)

lemma round_even_mono:
  assumes "y1 \<le> y2"
  shows "round_even y1 \<le> round_even y2"
proof (cases "\<lfloor>y1\<rfloor> = \<lfloor>y2\<rfloor>")
  case True
  with assms show ?thesis by (auto simp: round_even_def Let_def)
next
  case False
  with assms have "\<lfloor>y1\<rfloor> < \<lfloor>y2\<rfloor>" using floor_mono [OF assms] by linarith
  moreover have "round_even y1 \<le> \<lfloor>y1\<rfloor> + 1" using round_even_cases [of y1] by linarith
  moreover have "\<lfloor>y2\<rfloor> \<le> round_even y2" using round_even_cases [of y2] by linarith
  ultimately show ?thesis by linarith
qed

lemma round_even_minus: "round_even (- y) = - round_even y"
proof (cases "y \<in> \<int>")
  case True
  then obtain n where "y = of_int n" by (auto elim: Ints_cases)
  then show ?thesis by (simp flip: of_int_minus)
next
  case False
  then have ne: "y \<noteq> of_int \<lfloor>y\<rfloor>" by (metis Ints_of_int)
  have f: "\<lfloor>- y\<rfloor> = - \<lfloor>y\<rfloor> - 1"
    using ne by (simp add: floor_minus ceiling_altdef)
  have d: "0 < y - of_int \<lfloor>y\<rfloor>" "y - of_int \<lfloor>y\<rfloor> < 1"
    using ne floor_correct [of y] by linarith+
  show ?thesis
    using d by (auto simp: round_even_def Let_def f)
qed

lemma ilog2_bounds:
  assumes "0 < x"
  shows "2 powi ilog2 x \<le> x" and "x < 2 powi (ilog2 x + 1)"
proof -
  obtain p q where pq: "quotient_of x = (p, q)" by (cases "quotient_of x")
  then have q: "0 < q" and x: "x = of_int p / of_int q"
    using quotient_of_denom_pos quotient_of_div by auto
  with assms have p: "0 < p" by (simp add: zero_less_divide_iff)
  define a where "a = bitlen p"
  define b where "b = bitlen q"
  have a: "2 ^ nat (a - 1) \<le> p" "p < 2 ^ nat a" using bitlen_bounds [OF p] by (simp_all add: a_def)
  have b: "2 ^ nat (b - 1) \<le> q" "q < 2 ^ nat b" using bitlen_bounds [OF q] by (simp_all add: b_def)
  have a1: "1 \<le> a" using p bitlen_nonneg [of p] bitlen_eq_zero_iff [of p] by (simp add: a_def)
  have b1: "1 \<le> b" using q bitlen_nonneg [of q] bitlen_eq_zero_iff [of q] by (simp add: b_def)
  have pa: "(2::rat) powi (a - 1) \<le> of_int p" "of_int p < (2::rat) powi a"
  proof -
    have "(2::rat) powi (a - 1) = of_int (2 ^ nat (a - 1))" using a1 by (simp add: power_int_def)
    then show "(2::rat) powi (a - 1) \<le> of_int p" using a(1) by (simp only: of_int_le_iff)
    have "(2::rat) powi a = of_int (2 ^ nat a)" using a1 by (simp add: power_int_def)
    then show "of_int p < (2::rat) powi a" using a(2) by (simp only: of_int_less_iff)
  qed
  have qb: "(2::rat) powi (b - 1) \<le> of_int q" "of_int q < (2::rat) powi b"
  proof -
    have "(2::rat) powi (b - 1) = of_int (2 ^ nat (b - 1))" using b1 by (simp add: power_int_def)
    then show "(2::rat) powi (b - 1) \<le> of_int q" using b(1) by (simp only: of_int_le_iff)
    have "(2::rat) powi b = of_int (2 ^ nat b)" using b1 by (simp add: power_int_def)
    then show "of_int q < (2::rat) powi b" using b(2) by (simp only: of_int_less_iff)
  qed
  have qpos: "(0::rat) < of_int q" using q by simp
  have lo: "(2::rat) powi (a - b - 1) < x"
  proof -
    have "(2::rat) powi (a - b - 1) = 2 powi (a - 1) / 2 powi b"
      using power_int_diff [of "2::rat" "a - 1" b] by (simp add: algebra_simps)
    also have "\<dots> < of_int p / of_int q"
      by (rule frac_less2) (use pa qb qpos in simp_all)
    finally show ?thesis by (simp add: x)
  qed
  have hi: "x < (2::rat) powi (a - b + 1)"
  proof -
    have "of_int p / of_int q < (2::rat) powi a / 2 powi (b - 1)"
      by (rule frac_less) (use pa qb p in simp_all)
    also have "\<dots> = 2 powi (a - b + 1)"
      using power_int_diff [of "2::rat" a "b - 1"] by (simp add: algebra_simps)
    finally show ?thesis by (simp add: x)
  qed
  have e: "ilog2 x = (if 2 powi (a - b) \<le> x then a - b else a - b - 1)"
    by (simp add: ilog2_def pq a_def b_def Let_def)
  show "2 powi ilog2 x \<le> x" using lo by (auto simp: e)
  show "x < 2 powi (ilog2 x + 1)" using hi by (auto simp: e)
qed


lemma ilog2_mono:
  assumes "0 < x" and "x \<le> y"
  shows "ilog2 x \<le> ilog2 y"
proof (rule ccontr)
  assume "\<not> ilog2 x \<le> ilog2 y"
  then have "ilog2 y + 1 \<le> ilog2 x" by simp
  then have "(2::rat) powi (ilog2 y + 1) \<le> 2 powi ilog2 x"
    by (rule power_int_increasing) simp
  moreover have "0 < y" using assms by simp
  ultimately show False
    using ilog2_bounds(1) [OF assms(1)] ilog2_bounds(2) [of y] assms(2) by linarith
qed

lemma ulp_pos: "(0::rat) < 2 powi j"
  by (simp add: zero_less_power_int)

lemma ulp_scale: "(2::rat) ^ 52 * 2 powi (e - 52) = 2 powi e"
  using power_int_diff [of "2::rat" e 52] by simp

lemma ulp_scale': "(2::rat) ^ 53 * 2 powi (e - 52) = 2 powi (e + 1)"
  using power_int_diff [of "2::rat" "e + 1" 53] by simp

lemma fl_pos_form:
  assumes "0 < x"
  shows "fl x = of_int (round_even (x / 2 powi (ilog2 x - 52))) * 2 powi (ilog2 x - 52)"
  using assms by (simp add: fl_def Let_def)

lemma scaled_bounds:
  assumes "0 < x"
  shows "2 ^ 52 \<le> x / 2 powi (ilog2 x - 52)" and "x / 2 powi (ilog2 x - 52) \<le> 2 ^ 53"
proof -
  let ?u = "(2::rat) powi (ilog2 x - 52)"
  have u: "0 < ?u" by (rule ulp_pos)
  have "2 ^ 52 * ?u \<le> x" unfolding ulp_scale by (rule ilog2_bounds(1) [OF assms])
  then show "2 ^ 52 \<le> x / ?u" using u by (simp add: pos_le_divide_eq)
  have "x \<le> 2 ^ 53 * ?u" unfolding ulp_scale' using ilog2_bounds(2) [OF assms] by simp
  then show "x / ?u \<le> 2 ^ 53" using u by (simp add: pos_divide_le_eq)
qed

lemma round_scaled_bounds:
  assumes "0 < x"
  shows "2 ^ 52 \<le> round_even (x / 2 powi (ilog2 x - 52))"
    and "round_even (x / 2 powi (ilog2 x - 52)) \<le> 2 ^ 53"
proof -
  have a: "round_even (of_int (2 ^ 52)) \<le> round_even (x / 2 powi (ilog2 x - 52))"
    by (rule round_even_mono) (use scaled_bounds(1) [OF assms] in simp)
  have b: "round_even (x / 2 powi (ilog2 x - 52)) \<le> round_even (of_int (2 ^ 53))"
    by (rule round_even_mono) (use scaled_bounds(2) [OF assms] in simp)
  show "2 ^ 52 \<le> round_even (x / 2 powi (ilog2 x - 52))"
    using a unfolding round_even_of_int .
  show "round_even (x / 2 powi (ilog2 x - 52)) \<le> 2 ^ 53"
    using b unfolding round_even_of_int .
qed

lemma fl_bounds:
  assumes "0 < x"
  shows "2 powi ilog2 x \<le> fl x" and "fl x \<le> 2 powi (ilog2 x + 1)"
proof -
  let ?u = "(2::rat) powi (ilog2 x - 52)"
  let ?n = "round_even (x / ?u)"
  have u: "0 < ?u" by (rule ulp_pos)
  have "(2::rat) ^ 52 \<le> of_int ?n"
    using round_scaled_bounds(1) [OF assms] by (metis of_int_le_iff of_int_numeral of_int_power)
  then have "2 ^ 52 * ?u \<le> of_int ?n * ?u" using u by simp
  then show "2 powi ilog2 x \<le> fl x" unfolding ulp_scale fl_pos_form [OF assms] .
  have "of_int ?n \<le> (2::rat) ^ 53"
    using round_scaled_bounds(2) [OF assms] by (metis of_int_le_iff of_int_numeral of_int_power)
  then have "of_int ?n * ?u \<le> 2 ^ 53 * ?u" using u by simp
  then show "fl x \<le> 2 powi (ilog2 x + 1)" unfolding ulp_scale' fl_pos_form [OF assms] .
qed

lemma fl_zero [simp]: "fl 0 = 0"
  by (simp add: fl_def)

lemma fl_minus: "fl (- x) = - fl x"
  by (simp add: fl_def Let_def round_even_minus)

lemma fl_mono_pos:
  assumes "0 < x" and "x \<le> y"
  shows "fl x \<le> fl y"
proof -
  have y: "0 < y" using assms by simp
  have le: "ilog2 x \<le> ilog2 y" by (rule ilog2_mono [OF assms])
  show ?thesis
  proof (cases "ilog2 x = ilog2 y")
    case True
    let ?u = "(2::rat) powi (ilog2 y - 52)"
    have u: "0 < ?u" by (rule ulp_pos)
    have "x / ?u \<le> y / ?u" using assms(2) u by (simp add: divide_right_mono)
    then have "round_even (x / ?u) \<le> round_even (y / ?u)" by (rule round_even_mono)
    then have "(of_int (round_even (x / ?u)) :: rat) \<le> of_int (round_even (y / ?u))" by simp
    then have "of_int (round_even (x / ?u)) * ?u \<le> of_int (round_even (y / ?u)) * ?u"
      using u by simp
    then show ?thesis unfolding fl_pos_form [OF assms(1)] fl_pos_form [OF y] True .
  next
    case False
    with le have "ilog2 x + 1 \<le> ilog2 y" by simp
    then have "(2::rat) powi (ilog2 x + 1) \<le> 2 powi ilog2 y"
      by (rule power_int_increasing) simp
    with fl_bounds(2) [OF assms(1)] fl_bounds(1) [OF y] show ?thesis by linarith
  qed
qed

lemma fl_nonneg:
  assumes "0 \<le> x"
  shows "0 \<le> fl x"
proof (cases "x = 0")
  case True then show ?thesis by simp
next
  case False
  with assms have x: "0 < x" by simp
  have "(0::rat) < 2 powi ilog2 x" by (rule ulp_pos)
  with fl_bounds(1) [OF x] show ?thesis by linarith
qed

lemma fl_nonpos:
  assumes "x \<le> 0"
  shows "fl x \<le> 0"
proof -
  have "0 \<le> fl (- x)" by (rule fl_nonneg) (use assms in simp)
  then show ?thesis by (simp add: fl_minus)
qed

lemma fl_mono:
  assumes "x \<le> y"
  shows "fl x \<le> fl y"
proof -
  consider "0 < x" | "x \<le> 0" "0 \<le> y" | "y < 0" by linarith
  then show ?thesis
  proof cases
    case 1
    then show ?thesis using assms by (rule fl_mono_pos)
  next
    case 2
    then show ?thesis using fl_nonpos [of x] fl_nonneg [of y] by linarith
  next
    case 3
    then have "fl (- y) \<le> fl (- x)" using assms by (intro fl_mono_pos) simp_all
    then show ?thesis by (simp add: fl_minus)
  qed
qed

lemma fl_exact:
  assumes "x / 2 powi (ilog2 \<bar>x\<bar> - 52) \<in> \<int>"
  shows "fl x = x"
proof (cases "x = 0")
  case True then show ?thesis by simp
next
  case False
  let ?u = "(2::rat) powi (ilog2 \<bar>x\<bar> - 52)"
  have u: "?u \<noteq> 0" using ulp_pos [of "ilog2 \<bar>x\<bar> - 52"] by simp
  from assms obtain m where m: "x / ?u = of_int m" by (auto elim: Ints_cases)
  have "fl x = of_int (round_even (x / ?u)) * ?u" using False by (simp add: fl_def Let_def)
  also have "\<dots> = x / ?u * ?u" unfolding m round_even_of_int ..
  also have "\<dots> = x" using u by simp
  finally show ?thesis .
qed

lemma fl_Ints_scaled:
  assumes "x * 2 ^ k \<in> \<int>"
  shows "fl x * 2 ^ k \<in> \<int>"
proof (cases "x = 0")
  case True then show ?thesis by simp
next
  case False
  define j where "j = ilog2 \<bar>x\<bar> - 52"
  let ?u = "(2::rat) powi j"
  have form: "fl x = of_int (round_even (x / ?u)) * ?u"
    using False by (simp add: fl_def Let_def j_def)
  show ?thesis
  proof (cases "0 \<le> j + int k")
    case True
    have "?u * 2 ^ k = 2 powi (j + int k)"
      by (simp add: power_int_add power_int_of_nat)
    also have "\<dots> = 2 ^ nat (j + int k)" using True by (simp add: power_int_def)
    finally have "?u * 2 ^ k \<in> \<int>" by simp
    then have "of_int (round_even (x / ?u)) * (?u * 2 ^ k) \<in> \<int>"
      by (rule Ints_mult [OF Ints_of_int])
    then show ?thesis by (simp add: form mult.assoc)
  next
    case False
    then have neg: "0 \<le> - j - int k" by simp
    have "x / ?u = x * 2 powi (- j)" by (simp add: power_int_minus field_simps)
    also have "2 powi (- j) = (2::rat) ^ k * 2 powi (- j - int k)"
      using power_int_add [of "2::rat" "int k" "- j - int k"] by (simp add: power_int_of_nat)
    also have "(2::rat) powi (- j - int k) = 2 ^ nat (- j - int k)"
      using neg by (simp add: power_int_def)
    finally have "x / ?u = (x * 2 ^ k) * 2 ^ nat (- j - int k)" by (simp add: mult.assoc)
    moreover have "(x * 2 ^ k) * 2 ^ nat (- j - int k) \<in> \<int>"
      by (rule Ints_mult [OF assms]) simp
    ultimately have "x / ?u \<in> \<int>" by simp
    then have "fl x = x" unfolding j_def by (rule fl_exact)
    with assms show ?thesis by simp
  qed
qed

lemma fl_Ints: "x \<in> \<int> \<Longrightarrow> fl x \<in> \<int>"
  using fl_Ints_scaled [of x 0] by simp

lemma fl_half_Ints: "x * 2 \<in> \<int> \<Longrightarrow> fl x * 2 \<in> \<int>"
  using fl_Ints_scaled [of x 1] by simp

lemma ilog2_unique:
  assumes "2 powi e \<le> x" and "x < 2 powi (e + 1)"
  shows "ilog2 x = e"
proof -
  have x: "0 < x" using ulp_pos [of e] assms(1) by linarith
  note b = ilog2_bounds [OF x]
  have "\<not> ilog2 x < e"
  proof
    assume "ilog2 x < e"
    then have "ilog2 x + 1 \<le> e" by simp
    then have "(2::rat) powi (ilog2 x + 1) \<le> 2 powi e" by (rule power_int_increasing) simp
    with b(2) assms(1) show False by linarith
  qed
  moreover have "\<not> e < ilog2 x"
  proof
    assume "e < ilog2 x"
    then have "e + 1 \<le> ilog2 x" by simp
    then have "(2::rat) powi (e + 1) \<le> 2 powi ilog2 x" by (rule power_int_increasing) simp
    with b(1) assms(2) show False by linarith
  qed
  ultimately show ?thesis by linarith
qed

lemma fl_representable_pos:
  assumes "0 < n" and "n \<le> 2 ^ 53"
  shows "fl (of_int n * 2 powi j) = of_int n * 2 powi j"
proof -
  define v :: rat where "v = of_int n * 2 powi j"
  have n0: "(0::rat) < of_int n" using assms(1) by simp
  have v: "0 < v" unfolding v_def using n0 ulp_pos [of j] by (rule mult_pos_pos)
  have n53: "(of_int n :: rat) \<le> 2 ^ 53"
    using assms(2) by (metis of_int_le_iff of_int_numeral of_int_power)
  have top: "(2::rat) ^ 53 * 2 powi j = 2 powi (j + 53)"
    using power_int_add [of "2::rat" j 53] by simp
  have vle: "v \<le> 2 powi (j + 53)"
    unfolding v_def top [symmetric] using n53 ulp_pos [of j] by simp
  have "v / 2 powi (ilog2 v - 52) \<in> \<int>"
  proof (cases "ilog2 v \<le> j + 52")
    case True
    then have k: "0 \<le> j - (ilog2 v - 52)" by simp
    have "v / 2 powi (ilog2 v - 52) = of_int n * (2 powi j / 2 powi (ilog2 v - 52))"
      by (simp add: v_def)
    also have "2 powi j / 2 powi (ilog2 v - 52) = (2::rat) powi (j - (ilog2 v - 52))"
      using power_int_diff [of "2::rat" j "ilog2 v - 52"] by simp
    also have "\<dots> = 2 ^ nat (j - (ilog2 v - 52))" using k by (simp add: power_int_def)
    finally have "v / 2 powi (ilog2 v - 52) = of_int (n * 2 ^ nat (j - (ilog2 v - 52)))"
      by simp
    then show ?thesis by (simp only: Ints_of_int)
  next
    case False
    then have "j + 53 \<le> ilog2 v" by simp
    then have "(2::rat) powi (j + 53) \<le> 2 powi ilog2 v" by (rule power_int_increasing) simp
    with ilog2_bounds(1) [OF v] vle have veq: "v = 2 powi (j + 53)" by linarith
    have "(2::rat) powi (j + 53) < 2 powi (j + 53 + 1)"
      by (rule power_int_strict_increasing) simp_all
    then have e: "ilog2 v = j + 53" unfolding veq by (intro ilog2_unique) simp_all
    have "ilog2 v - 52 = j + 1" by (simp add: e)
    then have "v / 2 powi (ilog2 v - 52) = 2 powi (j + 53) / 2 powi (j + 1)"
      by (simp only: veq [symmetric])
    also have "\<dots> = (2::rat) powi (j + 53 - (j + 1))"
      using power_int_diff [of "2::rat" "j + 53" "j + 1"] by simp
    also have "\<dots> = of_int (2 ^ 52)" by simp
    finally show ?thesis by (simp only: Ints_of_int)
  qed
  then have "fl v = v" using v by (intro fl_exact) simp
  then show ?thesis by (simp add: v_def)
qed

lemma fl_idem [simp]: "fl (fl x) = fl x"
proof -
  have pos: "fl (fl y) = fl y" if y: "0 < y" for y
  proof -
    have "(0::int) < 2 ^ 52" by simp
    with round_scaled_bounds(1) [OF y] have "0 < round_even (y / 2 powi (ilog2 y - 52))"
      by linarith
    then show ?thesis
      unfolding fl_pos_form [OF y]
      by (rule fl_representable_pos) (rule round_scaled_bounds(2) [OF y])
  qed
  consider "0 < x" | "x = 0" | "x < 0" by linarith
  then show ?thesis
  proof cases
    case 1 then show ?thesis by (rule pos)
  next
    case 2 then show ?thesis by simp
  next
    case 3
    then have "fl (fl (- x)) = fl (- x)" by (intro pos) simp
    then show ?thesis by (simp add: fl_minus)
  qed
qed

lemma fl_of_int:
  assumes "\<bar>n\<bar> \<le> 2 ^ 53"
  shows "fl (of_int n) = of_int n"
proof -
  have pos: "fl (of_int m) = of_int m" if "0 < m" "m \<le> 2 ^ 53" for m
    using fl_representable_pos [OF that, of 0] by simp
  consider "0 < n" | "n = 0" | "n < 0" by linarith
  then show ?thesis
  proof cases
    case 1 with assms show ?thesis by (intro pos) simp_all
  next
    case 2 then show ?thesis by simp
  next
    case 3
    with assms have "fl (of_int (- n)) = of_int (- n)" by (intro pos) simp_all
    then show ?thesis by (simp add: fl_minus)
  qed
qed

lemma fl_100 [simp]: "fl 100 = 100"
  using fl_of_int [of 100] by simp

lemma fl_1 [simp]: "fl 1 = 1"
  using fl_of_int [of 1] by simp

lemma fl_le_100: "x \<le> 100 \<Longrightarrow> fl x \<le> 100"
  using fl_mono [of x 100] by simp

lemma fl_le_1: "x \<le> 1 \<Longrightarrow> fl x \<le> 1"
  using fl_mono [of x 1] by simp

section \<open>Properties of the scoring engine\<close>

subsection \<open>The loop of \<^verbatim>\<open>calculateScore\<close> in closed form\<close>

lemma score_step_contribution:
  "score_step fs (t, m) aw =
     (case contribution fs aw of None \<Rightarrow> t | Some c \<Rightarrow> js_add t c, fl (m + snd aw))"
  by (cases aw) (simp add: contribution_def Let_def split: option.splits)

lemma score_loop:
  "foldl (score_step fs) (t, m) ws =
     (foldl js_add t (List.map_filter (contribution fs) ws),
      foldl (\<lambda>m w. fl (m + w)) m (map snd ws))"
proof (induction ws arbitrary: t m)
  case Nil
  show ?case by (simp add: List.map_filter_simps)
next
  case (Cons aw ws)
  show ?case
    by (cases "contribution fs aw")
       (simp_all add: score_step_contribution Cons.IH List.map_filter_simps)
qed

lemma contributions_numeric:
  assumes "numeric_scores fs ws"
  shows "foldl js_add (Num t) (List.map_filter (contribution fs) ws) =
         Num (foldl (\<lambda>t c. fl (t + c)) t
                (map (\<lambda>aw. fl (fl (subscore fs (fst aw) / 100) * snd aw))
                   (filter (\<lambda>aw. scored fs (fst aw) \<noteq> None) ws)))"
  using assms
proof (induction ws arbitrary: t)
  case Nil
  show ?case by (simp add: List.map_filter_simps)
next
  case (Cons aw ws)
  then have n: "numeric_scores fs ws" by (simp add: numeric_scores_def)
  show ?case
  proof (cases "scored fs (fst aw)")
    case None
    then have c: "contribution fs aw = None" by (simp add: contribution_def)
    from None show ?thesis by (simp add: List.map_filter_simps c Cons.IH [OF n])
  next
    case (Some f)
    with Cons.prems obtain q where q: "getAnalyzerScore (fst aw) f = Num q"
      by (cases "getAnalyzerScore (fst aw) f") (auto simp: numeric_scores_def)
    have c: "contribution fs aw = Some (Num (fl (fl (q / 100) * snd aw)))"
      by (simp add: contribution_def Some q)
    have s: "subscore fs (fst aw) = q" by (simp add: subscore_def Some q)
    from Some show ?thesis by (simp add: List.map_filter_simps c Cons.IH [OF n] s)
  qed
qed

lemma weights_total: "double_sum (map snd weights) = 118"
  by code_simp

lemma overall_closed_form:
  assumes "numeric_scores fs weights"
  shows "overall (calculateScore fs) =
         Math_round (Num (fl (fl (double_sum
             (map (\<lambda>aw. fl (fl (subscore fs (fst aw) / 100) * snd aw))
                (filter (\<lambda>aw. scored fs (fst aw) \<noteq> None) weights)) / 118) * 100)))"
proof -
  have m: "foldl (\<lambda>m w. fl (m + w)) 0 (map snd weights) = 118"
    using weights_total by (simp add: double_sum_def)
  show ?thesis
    by (simp add: calculateScore_def score_loop contributions_numeric [OF assms] m Let_def
          double_sum_def)
qed

text \<open>
  Claim C1, as the code has it. Whenever the sub-scores of the scored analyzers are
  numbers, the overall score is
  \<open>round (\<Sum> (subscore\<^sub>i / 100 * weight\<^sub>i) / \<Sum> weight\<^sub>j * 100)\<close> computed in double
  arithmetic: every quotient, product and sum is rounded to the nearest double, and the
  sums are taken from left to right in the order of the weight table. The numerator
  ranges over the rows of the weight table whose analyzer has an entry in the findings
  map that is not marked \<^verbatim>\<open>success: false\<close>, and the denominator ranges over
  \<^emph>\<open>every\<close> row of the weight table (it is the constant 118): an analyzer that is
  absent from the findings map adds nothing to the numerator but its weight still
  counts in the denominator.
\<close>

theorem calculateScore_overall:
  assumes "numeric_scores fs weights"
  shows "overall (calculateScore fs) =
         Math_round (Num (fl (fl (double_sum
             (map (\<lambda>aw. fl (fl (subscore fs (fst aw) / 100) * snd aw))
                (filter (\<lambda>aw. scored fs (fst aw) \<noteq> None) weights))
           / double_sum (map snd weights)) * 100))) \<and>
         double_sum (map snd weights) = 118"
  using overall_closed_form [OF assms] weights_total by simp

theorem calculateScore_overall_witness:
  "numeric_scores [(''complexity'', complexity_36), (''architecture'', five_antiPatterns)] weights \<and>
   overall (calculateScore
     [(''complexity'', complexity_36), (''architecture'', five_antiPatterns)]) = Num 3"
proof -
  define fs where "fs = [(''complexity'', complexity_36), (''architecture'', five_antiPatterns)]"
  have n: "numeric_scores fs weights" unfolding fs_def by code_simp
  have "overall (calculateScore fs) =
         Math_round (Num (fl (fl (double_sum
             (map (\<lambda>aw. fl (fl (subscore fs (fst aw) / 100) * snd aw))
                (filter (\<lambda>aw. scored fs (fst aw) \<noteq> None) weights))
           / double_sum (map snd weights)) * 100)))"
    using calculateScore_overall [OF n] by (rule conjunct1)
  also have "\<dots> = Num 3" unfolding fs_def by code_simp
  finally show ?thesis using n unfolding fs_def by simp
qed

text \<open>
  With only a clean lint finding in the map the code scores 10 (12 of 118), where the
  aggregation over the analyzers present in both maps gives 100.
\<close>

theorem calculateScore_overall_counterexample:
  "overall (calculateScore [(''eslint'', clean_eslint)]) = Num 10 \<and>
   spec_overall [(''eslint'', clean_eslint)] = Num 100"
  by code_simp

text \<open>
  The rounding of the doubles shows in the result. A complexity score of 36 and five
  anti-patterns (sub-score 25) weigh \<open>2.88 + 1.25\<close> of 118, which is 3.5 percent
  exactly and 3.4999999999999996 in doubles: the code returns 3, where the same formula
  on exact numbers gives 4. So does a run of the default analyzers that finds nothing but
  a statement coverage of 16.9 percent: 45, where exact numbers give 46.
\<close>

lemma calculateScore_double_rounding:
  "overall (calculateScore
     [(''complexity'', complexity_36), (''architecture'', five_antiPatterns)]) = Num 3 \<and>
   \<lfloor>((36 / 100 * 8 + 25 / 100 * 5) / 118 * 100 + 1 / 2 :: rat)\<rfloor> = 4 \<and>
   overall (calculateScore
     [(''eslint'', clean_eslint), (''typescript'', ok_finding), (''security'', no_vulnerabilities),
      (''tests'', ok_finding \<lparr> coverage := Some (CovNumber (fl (169 / 10))) \<rparr>),
      (''complexity'', ok_finding)]) = Num 45 \<and>
   \<lfloor>((12 + 12 + 20 + 169 / 1000 * 10 + 8) / 118 * 100 + 1 / 2 :: rat)\<rfloor> = 46"
  by code_simp

subsection \<open>Ranges of the sub-scores and of the overall score\<close>

lemma int_in_range_max:
  "q \<in> \<int> \<Longrightarrow> q \<le> 100 \<Longrightarrow> int_in_range (Math_max (Num 0) (Num q))"
  by (auto simp: int_in_range_def max_def)

lemma int_in_range_of_int:
  "0 \<le> n \<Longrightarrow> n \<le> 100 \<Longrightarrow> int_in_range (Num (of_int n))"
  by (simp add: int_in_range_def)

lemma or_zero_int: "or_zero x \<in> \<int>" and or_zero_nonneg: "0 \<le> or_zero x"
  by (cases x; simp add: or_zero_def)+

lemma len_int: "len xs \<in> \<int>" and len_nonneg: "0 \<le> len xs"
  by (simp_all add: len_def)

lemma minus_pen_le:
  assumes "s \<le> 100" and "0 \<le> k"
  shows "minus_pen s xs k \<le> 100"
proof (cases xs)
  case None
  with assms show ?thesis by (simp add: minus_pen_def)
next
  case (Some ys)
  have "0 \<le> fl (len ys * k)" by (rule fl_nonneg) (simp add: len_nonneg assms(2))
  with assms(1) have "s - fl (len ys * k) \<le> 100" by simp
  then show ?thesis by (simp add: minus_pen_def Some fl_le_100)
qed

lemma minus_pen_int:
  assumes "s \<in> \<int>" and "k \<in> \<int>"
  shows "minus_pen s xs k \<in> \<int>"
proof (cases xs)
  case None
  with assms show ?thesis by (simp add: minus_pen_def)
next
  case (Some ys)
  have "len ys * k \<in> \<int>" by (rule Ints_mult [OF len_int assms(2)])
  then have "fl (len ys * k) \<in> \<int>" by (rule fl_Ints)
  then have "s - fl (len ys * k) \<in> \<int>" by (rule Ints_diff [OF assms(1)])
  then have "fl (s - fl (len ys * k)) \<in> \<int>" by (rule fl_Ints)
  then show ?thesis by (simp add: minus_pen_def Some)
qed

lemma minus_if_le: "s \<le> 100 \<Longrightarrow> 0 \<le> k \<Longrightarrow> minus_if s c k \<le> 100"
  by (simp add: minus_if_def fl_le_100)

lemma minus_if_int: "s \<in> \<int> \<Longrightarrow> k \<in> \<int> \<Longrightarrow> minus_if s c k \<in> \<int>"
  by (simp add: minus_if_def fl_Ints)

lemma gas_eslint: "getAnalyzerScore ''eslint'' f =
    Math_max (Num 0)
      (Num (fl (100 - fl (fl (or_zero (errors f) + fl (or_zero (warnings f) * (1 / 2))) * 2))))"
  by (simp add: getAnalyzerScore_def Let_def)

lemma gas_typescript: "getAnalyzerScore ''typescript'' f =
    (case errors f of Some n \<Rightarrow> if n > 0 then Num 0 else Num 100 | None \<Rightarrow> Num 100)"
  by (simp add: getAnalyzerScore_def)

lemma gas_security: "getAnalyzerScore ''security'' f =
    Math_max (Num 0) (Num (fl (100 - fl (or_zero (vulnerabilities f) * 20))))"
  by (simp add: getAnalyzerScore_def Let_def)

lemma gas_tests: "getAnalyzerScore ''tests'' f =
    (case coverage f of
       None \<Rightarrow> Math_min (Num 100) (Num 0)
     | Some (CovNumber c) \<Rightarrow> Math_min (Num 100) (Num c)
     | Some (CovObject s) \<Rightarrow> Math_min (Num 100) NaN)"
  by (simp add: getAnalyzerScore_def)

lemma gas_complexity: "getAnalyzerScore ''complexity'' f =
    (case score f of None \<Rightarrow> Num 100 | Some s \<Rightarrow> if s = 0 then Num 100 else Num s)"
  by (simp add: getAnalyzerScore_def)

lemma gas_dependencies: "getAnalyzerScore ''dependencies'' f =
    Math_max (Num 0) (Num (minus_if (minus_if (minus_if 100
       (dep_failed (circularDependencies f)) 30)
       (dep_failed (outdatedPackages f)) 20)
       (dep_failed (securityVulnerabilities f)) 50))"
  by (simp add: getAnalyzerScore_def Let_def minus_if_def)

lemma gas_coverage: "getAnalyzerScore ''coverage'' f =
    (case truthy_statements f of
       Some s \<Rightarrow> Math_min (Num 100) (to_number (stmt_pct s))
     | None \<Rightarrow> if success f = Some True then Num 100 else Num 0)"
  by (simp add: getAnalyzerScore_def)

lemma gas_performance: "getAnalyzerScore ''performance'' f =
    Math_max (Num 0) (Num (minus_pen 100 (performanceIssues f) 10))"
  by (simp add: getAnalyzerScore_def Let_def minus_pen_def)

lemma gas_architecture: "getAnalyzerScore ''architecture'' f =
    Math_max (Num 0) (Num (minus_pen 100 (antiPatterns f) 15))"
  by (simp add: getAnalyzerScore_def Let_def minus_pen_def)

lemma gas_bug_detection: "getAnalyzerScore ''bug-detection'' f =
    Math_max (Num 0) (Num (minus_pen (minus_pen (minus_pen (minus_pen 100
       (bugs f) 25) (potentialIssues f) 5) (securityRisks f) 30) (performanceIssues f) 10))"
  by (simp add: getAnalyzerScore_def Let_def minus_pen_def)

lemma gas_test_cases: "getAnalyzerScore ''test-cases'' f =
    Math_max (Num 0)
      (case truthy_statements f of
         Some s \<Rightarrow>
           Math_min (Num (minus_pen (minus_pen 100 (missingTests f) 10)
               (map_option (filter (\<lambda>t. quality t = ''POOR'')) (testQuality f)) 20))
             (to_number (stmt_pct s))
       | None \<Rightarrow>
           Num (minus_pen (minus_pen 100 (missingTests f) 10)
               (map_option (filter (\<lambda>t. quality t = ''POOR'')) (testQuality f)) 20))"
  by (simp add: getAnalyzerScore_def Let_def minus_pen_def split: option.splits)

lemma gas_default:
  "a \<notin> set (map fst weights) \<Longrightarrow> getAnalyzerScore a f = Num 100"
  by (simp add: getAnalyzerScore_def weights_def)

lemma score_eslint: "int_in_range (getAnalyzerScore ''eslint'' f)"
  unfolding gas_eslint
proof (rule int_in_range_max)
  define h where "h = fl (or_zero (warnings f) * (1 / 2))"
  define issues where "issues = fl (or_zero (errors f) + h)"
  have "or_zero (warnings f) * (1 / 2) * 2 \<in> \<int>" using or_zero_int [of "warnings f"] by simp
  then have h2: "h * 2 \<in> \<int>" unfolding h_def by (rule fl_half_Ints)
  have "(or_zero (errors f) + h) * 2 = or_zero (errors f) * 2 + h * 2" by (simp add: algebra_simps)
  also have "\<dots> \<in> \<int>" by (intro Ints_add Ints_mult or_zero_int h2) simp
  finally have "issues * 2 \<in> \<int>" unfolding issues_def by (rule fl_half_Ints)
  then have "fl (100 - fl (issues * 2)) \<in> \<int>" by (intro fl_Ints Ints_diff) simp_all
  then show "fl (100 - fl (fl (or_zero (errors f) + fl (or_zero (warnings f) * (1 / 2))) * 2)) \<in> \<int>"
    by (simp add: issues_def h_def)
  have "0 \<le> h" unfolding h_def by (rule fl_nonneg) (simp add: or_zero_nonneg)
  then have "0 \<le> issues" unfolding issues_def by (intro fl_nonneg add_nonneg_nonneg or_zero_nonneg)
  then have "0 \<le> fl (issues * 2)" by (intro fl_nonneg) simp
  then have "fl (100 - fl (issues * 2)) \<le> 100" by (intro fl_le_100) simp
  then show "fl (100 - fl (fl (or_zero (errors f) + fl (or_zero (warnings f) * (1 / 2))) * 2)) \<le> 100"
    by (simp add: issues_def h_def)
qed

lemma score_typescript: "int_in_range (getAnalyzerScore ''typescript'' f)"
  unfolding gas_typescript by (simp add: int_in_range_def split: option.splits)

lemma score_security: "int_in_range (getAnalyzerScore ''security'' f)"
  unfolding gas_security
proof (rule int_in_range_max)
  show "fl (100 - fl (or_zero (vulnerabilities f) * 20)) \<in> \<int>"
    by (intro fl_Ints Ints_diff Ints_mult or_zero_int) simp_all
  have "0 \<le> fl (or_zero (vulnerabilities f) * 20)"
    by (rule fl_nonneg) (simp add: or_zero_nonneg)
  then show "fl (100 - fl (or_zero (vulnerabilities f) * 20)) \<le> 100"
    by (intro fl_le_100) simp
qed

lemma score_dependencies: "int_in_range (getAnalyzerScore ''dependencies'' f)"
  unfolding gas_dependencies
  by (rule int_in_range_max) (intro minus_if_int minus_if_le; simp)+

lemma score_performance: "int_in_range (getAnalyzerScore ''performance'' f)"
  unfolding gas_performance
  by (rule int_in_range_max) (intro minus_pen_int minus_pen_le; simp)+

lemma score_architecture: "int_in_range (getAnalyzerScore ''architecture'' f)"
  unfolding gas_architecture
  by (rule int_in_range_max) (intro minus_pen_int minus_pen_le; simp)+

lemma score_bug_detection: "int_in_range (getAnalyzerScore ''bug-detection'' f)"
  unfolding gas_bug_detection
  by (rule int_in_range_max) (intro minus_pen_int minus_pen_le; simp)+

lemma int_in_range_imp: "int_in_range x \<Longrightarrow> in_range x"
  by (cases x) (simp_all add: int_in_range_def in_range_def)

lemma score_tests: "shaped ''tests'' f \<Longrightarrow> in_range (getAnalyzerScore ''tests'' f)"
  unfolding gas_tests
  by (auto simp: shaped_def in_range_def split: option.splits coverage_field.splits)

lemma score_complexity:
  "shaped ''complexity'' f \<Longrightarrow> int_in_range (getAnalyzerScore ''complexity'' f)"
  unfolding gas_complexity
  by (auto simp: shaped_def int_in_range_def split: option.splits)

lemma score_coverage: "shaped ''coverage'' f \<Longrightarrow> in_range (getAnalyzerScore ''coverage'' f)"
  unfolding gas_coverage
  by (auto simp: shaped_def in_range_def to_number_def split: option.splits)

lemma score_test_cases:
  "shaped ''test-cases'' f \<Longrightarrow> in_range (getAnalyzerScore ''test-cases'' f)"
proof -
  assume sh: "shaped ''test-cases'' f"
  define t where "t = minus_pen (minus_pen 100 (missingTests f) 10)
      (map_option (filter (\<lambda>t. quality t = ''POOR'')) (testQuality f)) 20"
  have t: "t \<le> 100"
    unfolding t_def by (intro minus_pen_le; simp)
  have eq: "getAnalyzerScore ''test-cases'' f =
      Math_max (Num 0) (case truthy_statements f of
         Some s \<Rightarrow> Math_min (Num t) (to_number (stmt_pct s)) | None \<Rightarrow> Num t)"
    unfolding gas_test_cases t_def ..
  show ?thesis
    unfolding eq using sh t
    by (auto simp: shaped_def in_range_def to_number_def split: option.splits)
qed

lemma score_unlisted:
  "a \<notin> set (map fst weights) \<Longrightarrow> int_in_range (getAnalyzerScore a f)"
  by (simp add: gas_default int_in_range_def)

lemma score_int_in_range:
  assumes "a \<notin> {''tests'', ''complexity'', ''coverage'', ''test-cases''}"
  shows "int_in_range (getAnalyzerScore a f)"
proof (cases "a \<in> set (map fst weights)")
  case False
  then show ?thesis by (rule score_unlisted)
next
  case True
  with assms have "a = ''eslint'' \<or> a = ''typescript'' \<or> a = ''security''
    \<or> a = ''dependencies'' \<or> a = ''performance'' \<or> a = ''architecture''
    \<or> a = ''bug-detection''"
    unfolding weights_def by simp
  then show ?thesis
    using score_eslint score_typescript score_security score_dependencies
      score_performance score_architecture score_bug_detection
    by (elim disjE) blast+
qed

lemma score_in_range:
  assumes "shaped a f"
  shows "in_range (getAnalyzerScore a f)"
proof (cases "a = ''tests'' \<or> a = ''complexity'' \<or> a = ''coverage'' \<or> a = ''test-cases''")
  case False
  then have "a \<notin> {''tests'', ''complexity'', ''coverage'', ''test-cases''}" by blast
  then show ?thesis by (intro int_in_range_imp score_int_in_range)
next
  case True
  then show ?thesis
    using assms score_tests score_complexity [THEN int_in_range_imp] score_coverage
      score_test_cases
    by (elim disjE) blast+
qed

lemma bare_statements_nan:
  assumes "bare_statements f"
  shows "getAnalyzerScore ''coverage'' f = NaN" and "getAnalyzerScore ''test-cases'' f = NaN"
proof -
  from assms have "\<exists>n. truthy_statements f = Some (StmtNumber n)"
    by (auto simp: bare_statements_def truthy_statements_def
          split: option.splits coverage_field.splits stmt_field.splits)
  then obtain n where t: "truthy_statements f = Some (StmtNumber n)" ..
  show "getAnalyzerScore ''coverage'' f = NaN"
    unfolding gas_coverage by (simp add: t stmt_pct_def to_number_def)
  show "getAnalyzerScore ''test-cases'' f = NaN"
    unfolding gas_test_cases by (simp add: t stmt_pct_def to_number_def)
qed

lemma shaped_scored:
  assumes "list_all (\<lambda>kf. shaped (fst kf) (snd kf)) fs" and "scored fs a = Some f"
  shows "shaped a f"
proof -
  from assms(2) have "map_of fs a = Some f"
    by (auto simp: scored_def split: option.splits if_splits)
  then have "(a, f) \<in> set fs" by (rule map_of_SomeD)
  with assms(1) show ?thesis by (auto simp: list_all_iff)
qed

lemma shaped_numeric:
  assumes "list_all (\<lambda>kf. shaped (fst kf) (snd kf)) fs"
  shows "numeric_scores fs ws"
  unfolding numeric_scores_def list_all_iff
proof
  fix aw assume "aw \<in> set ws"
  show "case scored fs (fst aw) of None \<Rightarrow> True | Some f \<Rightarrow> getAnalyzerScore (fst aw) f \<noteq> NaN"
  proof (cases "scored fs (fst aw)")
    case None then show ?thesis by simp
  next
    case (Some f)
    from score_in_range [OF shaped_scored [OF assms Some]] Some show ?thesis
      by (auto simp: in_range_def)
  qed
qed

lemma subscore_bounds:
  assumes "list_all (\<lambda>kf. shaped (fst kf) (snd kf)) fs"
  shows "0 \<le> subscore fs a \<and> subscore fs a \<le> 100"
proof (cases "scored fs a")
  case None then show ?thesis by (simp add: subscore_def)
next
  case (Some f)
  from score_in_range [OF shaped_scored [OF assms Some]] Some show ?thesis
    by (auto simp: in_range_def subscore_def split: jsnum.splits)
qed

lemma contribution_bounds:
  assumes "0 \<le> s" and "s \<le> 100" and "0 \<le> w" and "fl w = w"
  shows "0 \<le> fl (fl (s / 100) * w)" and "fl (fl (s / 100) * w) \<le> w"
proof -
  have lo: "0 \<le> fl (s / 100)" by (rule fl_nonneg) (use assms(1) in simp)
  have hi: "fl (s / 100) \<le> 1" by (rule fl_le_1) (use assms(2) in simp)
  show "0 \<le> fl (fl (s / 100) * w)" by (rule fl_nonneg) (use lo assms(3) in simp)
  have "fl (s / 100) * w \<le> w" using mult_right_mono [OF hi assms(3)] by simp
  then have "fl (fl (s / 100) * w) \<le> fl w" by (rule fl_mono)
  then show "fl (fl (s / 100) * w) \<le> w" by (simp only: assms(4))
qed

lemma weighted_sum_bounds:
  fixes ws :: "(string \<times> rat) list" and g :: "string \<times> rat \<Rightarrow> rat"
  assumes "\<forall>aw \<in> set ws. 0 \<le> g aw \<and> g aw \<le> snd aw"
    and "0 \<le> t" and "t \<le> m" and "fl t = t"
  shows "0 \<le> foldl (\<lambda>t c. fl (t + c)) t (map g (filter P ws)) \<and>
         foldl (\<lambda>t c. fl (t + c)) t (map g (filter P ws)) \<le>
           foldl (\<lambda>m w. fl (m + w)) m (map snd ws)"
  using assms
proof (induction ws arbitrary: t m)
  case Nil
  then show ?case by simp
next
  case (Cons aw ws)
  from Cons.prems(1) have g: "0 \<le> g aw" "g aw \<le> snd aw"
    and rest: "\<forall>aw \<in> set ws. 0 \<le> g aw \<and> g aw \<le> snd aw" by simp_all
  show ?case
  proof (cases "P aw")
    case True
    have 1: "0 \<le> fl (t + g aw)" by (rule fl_nonneg) (use Cons.prems(2) g(1) in simp)
    have 2: "fl (t + g aw) \<le> fl (m + snd aw)" by (rule fl_mono) (use Cons.prems(3) g(2) in simp)
    have 3: "fl (fl (t + g aw)) = fl (t + g aw)" by simp
    from Cons.IH [OF rest 1 2 3] True show ?thesis by simp
  next
    case False
    have "fl t \<le> fl (m + snd aw)" by (rule fl_mono) (use Cons.prems(3) g in simp)
    then have 2: "t \<le> fl (m + snd aw)" by (simp only: Cons.prems(4))
    from Cons.IH [OF rest Cons.prems(2) 2 Cons.prems(4)] False show ?thesis by simp
  qed
qed

lemma round_percent:
  fixes x :: rat
  assumes "0 \<le> x" and "x \<le> 100"
  shows "0 \<le> \<lfloor>x + 1 / 2\<rfloor> \<and> \<lfloor>x + 1 / 2\<rfloor> \<le> 100"
proof
  show "0 \<le> \<lfloor>x + 1 / 2\<rfloor>" using assms(1) by simp
  have "x + 1 / 2 < 101" using assms(2) by simp
  then have "\<lfloor>x + 1 / 2\<rfloor> < 101" by (simp add: floor_less_iff)
  then show "\<lfloor>x + 1 / 2\<rfloor> \<le> 100" by simp
qed

lemma weights_doubles: "list_all (\<lambda>aw. 0 \<le> snd aw \<and> fl (snd aw) = snd aw) weights"
  by code_simp

lemma overall_in_range:
  assumes "list_all (\<lambda>kf. shaped (fst kf) (snd kf)) fs"
  shows "int_in_range (overall (calculateScore fs))"
proof -
  define g :: "string \<times> rat \<Rightarrow> rat"
    where "g = (\<lambda>aw. fl (fl (subscore fs (fst aw) / 100) * snd aw))"
  define t where "t = double_sum (map g (filter (\<lambda>aw. scored fs (fst aw) \<noteq> None) weights))"
  have w: "\<forall>aw \<in> set weights. 0 \<le> g aw \<and> g aw \<le> snd aw"
  proof
    fix aw assume "aw \<in> set weights"
    with weights_doubles have d: "0 \<le> snd aw" "fl (snd aw) = snd aw" by (auto simp: list_all_iff)
    from subscore_bounds [OF assms, of "fst aw"]
    have s: "0 \<le> subscore fs (fst aw)" "subscore fs (fst aw) \<le> 100" by simp_all
    show "0 \<le> g aw \<and> g aw \<le> snd aw"
      unfolding g_def using contribution_bounds [OF s d] by simp
  qed
  have "0 \<le> t \<and> t \<le> foldl (\<lambda>m w. fl (m + w)) 0 (map snd weights)"
    unfolding t_def double_sum_def by (rule weighted_sum_bounds [OF w]) simp_all
  then have b: "0 \<le> t" "t \<le> 118"
    using weights_total by (simp_all add: double_sum_def)
  have q0: "0 \<le> fl (t / 118)" by (rule fl_nonneg) (use b(1) in simp)
  have q1: "fl (t / 118) \<le> 1" by (rule fl_le_1) (use b(2) in simp)
  have x0: "0 \<le> fl (fl (t / 118) * 100)" by (rule fl_nonneg) (use q0 in simp)
  have x1: "fl (fl (t / 118) * 100) \<le> 100" by (rule fl_le_100) (use q1 in simp)
  define n where "n = \<lfloor>fl (fl (t / 118) * 100) + 1 / 2\<rfloor>"
  have "overall (calculateScore fs) = Num (of_int n)"
    using overall_closed_form [OF shaped_numeric [OF assms]]
    by (simp add: t_def n_def g_def)
  moreover have "0 \<le> n" "n \<le> 100"
    using round_percent [OF x0 x1] by (simp_all add: n_def)
  ultimately show ?thesis by (simp add: int_in_range_of_int)
qed

text \<open>
  Claim C8, as the code has it. The sub-score of every analyzer that counts issues
  (every name but \<^verbatim>\<open>tests\<close>, \<^verbatim>\<open>complexity\<close>, \<^verbatim>\<open>coverage\<close>, \<^verbatim>\<open>test-cases\<close>) is
  an integer in 0..100 for every finding, and so is the sub-score of \<^verbatim>\<open>complexity\<close> for
  the integer score in 0..100 that \<^verbatim>\<open>analyzeComplexity\<close> stores. The sub-scores of
  \<^verbatim>\<open>tests\<close>, \<^verbatim>\<open>coverage\<close> and \<^verbatim>\<open>test-cases\<close> pass a percentage through: they are
  numbers in 0..100, not necessarily integers, for the findings that \<^const>\<open>shaped\<close>
  admits. For a findings map whose entries are all admitted the overall score is an
  integer in 0..100. The findings left out are named: on a bare non-zero
  \<^verbatim>\<open>coverage.statements\<close>, which is what \<^verbatim>\<open>checkCoverage\<close> and \<^verbatim>\<open>checkTestCases\<close>
  store, the sub-scores of \<^verbatim>\<open>coverage\<close> and \<^verbatim>\<open>test-cases\<close> are \<^verbatim>\<open>NaN\<close>.
\<close>

theorem scores_in_range:
  "(a \<notin> {''tests'', ''complexity'', ''coverage'', ''test-cases''} \<longrightarrow>
      int_in_range (getAnalyzerScore a f)) \<and>
   (shaped ''complexity'' f \<longrightarrow> int_in_range (getAnalyzerScore ''complexity'' f)) \<and>
   (shaped a f \<longrightarrow> in_range (getAnalyzerScore a f)) \<and>
   (list_all (\<lambda>kf. shaped (fst kf) (snd kf)) fs \<longrightarrow>
      int_in_range (overall (calculateScore fs))) \<and>
   (bare_statements f \<longrightarrow>
      getAnalyzerScore ''coverage'' f = NaN \<and> getAnalyzerScore ''test-cases'' f = NaN)"
proof (intro conjI impI)
  assume "a \<notin> {''tests'', ''complexity'', ''coverage'', ''test-cases''}"
  then show "int_in_range (getAnalyzerScore a f)" by (rule score_int_in_range)
next
  assume "shaped ''complexity'' f"
  then show "int_in_range (getAnalyzerScore ''complexity'' f)" by (rule score_complexity)
next
  assume "shaped a f"
  then show "in_range (getAnalyzerScore a f)" by (rule score_in_range)
next
  assume "list_all (\<lambda>kf. shaped (fst kf) (snd kf)) fs"
  then show "int_in_range (overall (calculateScore fs))" by (rule overall_in_range)
next
  assume "bare_statements f"
  then show "getAnalyzerScore ''coverage'' f = NaN" by (rule bare_statements_nan)
next
  assume "bare_statements f"
  then show "getAnalyzerScore ''test-cases'' f = NaN" by (rule bare_statements_nan)
qed

theorem scores_in_range_witness:
  "''eslint'' \<notin> {''tests'', ''complexity'', ''coverage'', ''test-cases''} \<and>
   getAnalyzerScore ''eslint'' lint_3_2 = Num 92 \<and>
   int_in_range (getAnalyzerScore ''eslint'' lint_3_2) \<and>
   shaped ''complexity'' complexity_36 \<and>
   int_in_range (getAnalyzerScore ''complexity'' complexity_36) \<and>
   shaped ''tests'' tests_85_5 \<and>
   in_range (getAnalyzerScore ''tests'' tests_85_5) \<and>
   list_all (\<lambda>kf. shaped (fst kf) (snd kf))
     [(''eslint'', clean_eslint), (''security'', no_vulnerabilities), (''tests'', tests_85_5)] \<and>
   int_in_range (overall (calculateScore
     [(''eslint'', clean_eslint), (''security'', no_vulnerabilities), (''tests'', tests_85_5)])) \<and>
   bare_statements coverage_bare_85 \<and>
   getAnalyzerScore ''coverage'' coverage_bare_85 = NaN"
proof -
  have a: "''eslint'' \<notin> {''tests'', ''complexity'', ''coverage'', ''test-cases''}" by simp
  have v: "getAnalyzerScore ''eslint'' lint_3_2 = Num 92" by code_simp
  have c: "shaped ''complexity'' complexity_36" by code_simp
  have s: "shaped ''tests'' tests_85_5" by code_simp
  have l: "list_all (\<lambda>kf. shaped (fst kf) (snd kf))
     [(''eslint'', clean_eslint), (''security'', no_vulnerabilities), (''tests'', tests_85_5)]"
    by code_simp
  have b: "bare_statements coverage_bare_85" by code_simp
  define fs where "fs = [(''eslint'', clean_eslint), (''security'', no_vulnerabilities),
    (''tests'', tests_85_5)]"
  note T1 = scores_in_range [of "''eslint''" lint_3_2 fs]
  note T2 = scores_in_range [of "''tests''" tests_85_5 fs]
  note T3 = scores_in_range [of "''tests''" complexity_36 fs]
  note T4 = scores_in_range [of "''tests''" coverage_bare_85 fs]
  have 1: "int_in_range (getAnalyzerScore ''eslint'' lint_3_2)"
    using T1 [THEN conjunct1] a by (rule mp)
  have 2: "int_in_range (getAnalyzerScore ''complexity'' complexity_36)"
    using T3 [THEN conjunct2, THEN conjunct1] c by (rule mp)
  have 3: "in_range (getAnalyzerScore ''tests'' tests_85_5)"
    using T2 [THEN conjunct2, THEN conjunct2, THEN conjunct1] s by (rule mp)
  have 4: "int_in_range (overall (calculateScore fs))"
    using T1 [THEN conjunct2, THEN conjunct2, THEN conjunct2, THEN conjunct1] l
    unfolding fs_def by (rule mp)
  have "getAnalyzerScore ''coverage'' coverage_bare_85 = NaN \<and>
        getAnalyzerScore ''test-cases'' coverage_bare_85 = NaN"
    using T4 [THEN conjunct2, THEN conjunct2, THEN conjunct2, THEN conjunct2] b by (rule mp)
  then have 5: "getAnalyzerScore ''coverage'' coverage_bare_85 = NaN" by (rule conjunct1)
  show ?thesis
    using a v 1 c 2 s 3 l 4 b 5 unfolding fs_def by (intro conjI)
qed

text \<open>
  The finding \<^verbatim>\<open>checkTests\<close> returns for 85.5 percent statement coverage has the
  sub-score 85.5, which is not an integer. The finding \<^verbatim>\<open>checkCoverage\<close> returns for
  85 percent has no sub-score at all, and neither has a run that scores it an overall
  score.
\<close>

theorem sub_score_integer_counterexample:
  "getAnalyzerScore ''tests'' tests_85_5 = Num (171 / 2) \<and>
   \<not> int_in_range (getAnalyzerScore ''tests'' tests_85_5) \<and>
   getAnalyzerScore ''coverage'' coverage_bare_85 = NaN \<and>
   \<not> in_range (getAnalyzerScore ''coverage'' coverage_bare_85) \<and>
   overall (calculateScore [(''coverage'', coverage_bare_85)]) = NaN"
  by code_simp

section \<open>Properties of the orchestrator\<close>

lemma update_fresh: "k \<notin> fst ` set al \<Longrightarrow> AList.update k v al = al @ [(k, v)]"
  by (induction al) auto

lemma dispatch_key:
  assumes "dispatch az n = Some (key, oc)"
  shows "requested_name key = n \<and> requested_name n = n"
  using assms unfolding dispatch_def
  by (auto simp: requested_name_def split: if_splits)

lemma entry_name:
  assumes "recognized az n"
  shows "requested_name (fst (entry az n)) = n"
proof -
  from assms obtain key oc where d: "dispatch az n = Some (key, oc)"
    by (auto simp: recognized_def)
  from dispatch_key [OF d] d show ?thesis
    by (cases oc) (simp_all add: entry_def)
qed

lemma run_one_entry:
  assumes "recognized az n"
  shows "run_one az fs n = AList.update (fst (entry az n)) (snd (entry az n)) fs"
proof -
  from assms obtain key oc where d: "dispatch az n = Some (key, oc)"
    by (auto simp: recognized_def)
  then show ?thesis by (cases oc) (simp_all add: run_one_def entry_def)
qed

lemma run_loop:
  assumes "distinct names" and "list_all (recognized az) names"
    and "\<forall>k \<in> fst ` set acc. requested_name k \<notin> set names"
  shows "foldl (run_one az) acc names = acc @ map (entry az) names"
  using assms
proof (induction names arbitrary: acc)
  case Nil
  show ?case by simp
next
  case (Cons n ns)
  from Cons.prems(2) have r: "recognized az n" by simp
  have name: "requested_name (fst (entry az n)) = n" by (rule entry_name [OF r])
  have fresh: "fst (entry az n) \<notin> fst ` set acc"
  proof
    assume "fst (entry az n) \<in> fst ` set acc"
    with Cons.prems(3) have "requested_name (fst (entry az n)) \<notin> set (n # ns)" by blast
    with name show False by simp
  qed
  have step: "run_one az acc n = acc @ [entry az n]"
    using run_one_entry [OF r] update_fresh [OF fresh] by simp
  have inv: "\<forall>k \<in> fst ` set (acc @ [entry az n]). requested_name k \<notin> set ns"
  proof
    fix k assume "k \<in> fst ` set (acc @ [entry az n])"
    then consider "k \<in> fst ` set acc" | "k = fst (entry az n)" by auto
    then show "requested_name k \<notin> set ns"
    proof cases
      case 1
      with Cons.prems(3) show ?thesis by auto
    next
      case 2
      with name Cons.prems(1) show ?thesis by simp
    qed
  qed
  from Cons.prems have "distinct ns" "list_all (recognized az) ns" by simp_all
  from Cons.IH [OF this inv] step show ?case by simp
qed

lemma runAnalyzers_entries:
  assumes "distinct names" and "list_all (recognized az) names"
  shows "runAnalyzers az names = map (entry az) names"
  unfolding runAnalyzers_def using run_loop [OF assms, of "[]"] by simp

lemma entries_distinct:
  assumes "distinct names" and "list_all (recognized az) names"
  shows "distinct (map fst (map (entry az) names))"
proof -
  have "map requested_name (map fst (map (entry az) names)) = names"
    using assms(2) by (induction names) (simp_all add: entry_name)
  with assms(1) have "distinct (map requested_name (map fst (map (entry az) names)))" by simp
  then show ?thesis unfolding distinct_map [of requested_name] by (rule conjunct1)
qed

lemma runAnalyzers_lookup:
  assumes "distinct names" and "list_all (recognized az) names" and "n \<in> set names"
  shows "map_of (runAnalyzers az names) (fst (entry az n)) = Some (snd (entry az n))"
proof -
  have "entry az n \<in> set (map (entry az) names)" using assms(3) by simp
  then have "(fst (entry az n), snd (entry az n)) \<in> set (runAnalyzers az names)"
    by (simp add: runAnalyzers_entries [OF assms(1,2)])
  moreover have "distinct (map fst (runAnalyzers az names))"
    using entries_distinct [OF assms(1,2)] by (simp add: runAnalyzers_entries [OF assms(1,2)])
  ultimately show ?thesis by (rule map_of_is_SomeI [rotated])
qed


subsection \<open>The requested names are pairwise distinct\<close>

lemma set_add_loop_distinct: "distinct acc \<Longrightarrow> distinct (foldl set_add acc xs)"
  by (induction xs arbitrary: acc) (simp_all add: set_add_def)

lemma array_from_Set_distinct: "distinct (array_from_Set xs)"
  unfolding array_from_Set_def by (rule set_add_loop_distinct) simp

lemma array_from_Set_set: "set (foldl set_add acc xs) = set acc \<union> set xs"
  by (induction xs arbitrary: acc) (auto simp: set_add_def)

text \<open>
  Whatever the project file, the template and \<^verbatim>\<open>package.json\<close> list, the names that
  \<^verbatim>\<open>runAnalyzers\<close> loops over are pairwise distinct: the defaults are, and every merge
  of an array goes through a \<^verbatim>\<open>Set\<close>.
\<close>

lemma getEnabledAnalyzers_distinct: "distinct (getEnabledAnalyzers sources)"
  by (simp add: getEnabledAnalyzers_def loadConfig_analyzers_def mergeConfigs_analyzers_def
        array_from_Set_distinct default_analyzers_def Let_def split: option.splits)

subsection \<open>One failing analyzer\<close>

lemma succeeds_entry:
  assumes "succeeds az n"
  shows "recognized az n" and "\<not> marked_failed (entry az n)"
    and "\<exists>key f. dispatch az n = Some (key, Returns f) \<and> entry az n = (key, f) \<and>
           success f \<noteq> Some False"
  using assms
  by (auto simp: succeeds_def recognized_def marked_failed_def entry_def
        split: option.splits outcome.splits)

lemma throws_entry:
  assumes "dispatch az n = Some (key, Throws msg)"
  shows "recognized az n" and "marked_failed (entry az n)" and "entry az n = (n, failure msg)"
  using assms by (simp_all add: recognized_def marked_failed_def entry_def failure_def)

lemma count_none: "x \<notin> set xs \<Longrightarrow> filter (\<lambda>y. y = x) xs = []"
  by (induction xs) auto

lemma count_one:
  "distinct xs \<Longrightarrow> x \<in> set xs \<Longrightarrow> length (filter (\<lambda>y. y = x) xs) = 1"
  by (induction xs) (auto simp: count_none)

lemma run_isolates_failure:
  assumes "distinct names"
    and "bad \<in> set names" and "dispatch az bad = Some (kb, Throws msg)"
    and "\<forall>n \<in> set names. n \<noteq> bad \<longrightarrow> succeeds az n"
  shows "length (runAnalyzers az names) = length names"
    and "distinct (map fst (runAnalyzers az names))"
    and "map_of (runAnalyzers az names) bad = Some (failure msg)"
    and "\<forall>n \<in> set names. n \<noteq> bad \<longrightarrow>
            (\<exists>key f. dispatch az n = Some (key, Returns f) \<and>
                     map_of (runAnalyzers az names) key = Some f \<and> success f \<noteq> Some False)"
    and "length (filter marked_failed (runAnalyzers az names)) = 1"
    and "length (filter (\<lambda>kf. \<not> marked_failed kf) (runAnalyzers az names)) = length names - 1"
proof -
  have r: "list_all (recognized az) names"
    unfolding list_all_iff
  proof
    fix n assume "n \<in> set names"
    with assms(4) throws_entry(1) [OF assms(3)] succeeds_entry(1) [of az n]
    show "recognized az n" by (cases "n = bad") auto
  qed
  note run = runAnalyzers_entries [OF assms(1) r]
  show "length (runAnalyzers az names) = length names" by (simp add: run)
  show "distinct (map fst (runAnalyzers az names))"
    using entries_distinct [OF assms(1) r] by (simp add: run)
  show "map_of (runAnalyzers az names) bad = Some (failure msg)"
    using runAnalyzers_lookup [OF assms(1) r assms(2)] throws_entry(3) [OF assms(3)] by simp
  show "\<forall>n \<in> set names. n \<noteq> bad \<longrightarrow>
            (\<exists>key f. dispatch az n = Some (key, Returns f) \<and>
                     map_of (runAnalyzers az names) key = Some f \<and> success f \<noteq> Some False)"
  proof (intro ballI impI)
    fix n assume n: "n \<in> set names" "n \<noteq> bad"
    with assms(4) have "succeeds az n" by blast
    from succeeds_entry(3) [OF this] obtain key f
      where d: "dispatch az n = Some (key, Returns f)" and e: "entry az n = (key, f)"
        and s: "success f \<noteq> Some False" by blast
    from runAnalyzers_lookup [OF assms(1) r n(1)] e
    have "map_of (runAnalyzers az names) key = Some f" by simp
    with d s show "\<exists>key f. dispatch az n = Some (key, Returns f) \<and>
        map_of (runAnalyzers az names) key = Some f \<and> success f \<noteq> Some False" by blast
  qed
  have m: "marked_failed (entry az n) = (n = bad)" if "n \<in> set names" for n
    using that assms(4) throws_entry(2) [OF assms(3)] succeeds_entry(2) [of az n] by blast
  have "filter marked_failed (map (entry az) names) =
        map (entry az) (filter (\<lambda>n. marked_failed (entry az n)) names)"
    by (simp add: filter_map comp_def)
  also have "filter (\<lambda>n. marked_failed (entry az n)) names = filter (\<lambda>n. n = bad) names"
    by (rule filter_cong) (simp_all add: m)
  finally have "length (filter marked_failed (runAnalyzers az names)) =
      length (filter (\<lambda>n. n = bad) names)" by (simp add: run)
  then show one: "length (filter marked_failed (runAnalyzers az names)) = 1"
    by (simp only: count_one [OF assms(1,2)])
  have "length (filter marked_failed (runAnalyzers az names)) +
        length (filter (\<lambda>kf. \<not> marked_failed kf) (runAnalyzers az names)) =
        length (runAnalyzers az names)"
    by (rule sum_length_filter_compl)
  with one have "1 + length (filter (\<lambda>kf. \<not> marked_failed kf) (runAnalyzers az names)) =
        length (runAnalyzers az names)"
    by (simp only:)
  also have "length (runAnalyzers az names) = length names" by (simp add: run)
  finally show "length (filter (\<lambda>kf. \<not> marked_failed kf) (runAnalyzers az names)) =
      length names - 1"
    by linarith
qed

text \<open>
  Claim C2. Let \<open>N\<close> analyzers be requested, by pairwise distinct names as the
  configuration always lists them, let the analyzer of exactly one name \<open>bad\<close> throw
  (with message \<open>msg\<close>) and let every other analyzer return a Finding that is not marked
  \<^verbatim>\<open>success: false\<close>. Then the findings map has exactly \<open>N\<close> keys, the entry under
  \<open>bad\<close> is \<^verbatim>\<open>{success: false, error: msg}\<close>, every other analyzer was run and its
  Finding is recorded, as successful, under its property key, so that exactly one entry
  of the map is marked failed and \<open>N - 1\<close> are not. The result is a findings map in every
  case: no exception leaves \<^const>\<open>runAnalyzers\<close>.
\<close>

theorem runAnalyzers_isolates_failure:
  assumes "distinct names"
    and "bad \<in> set names" and "dispatch az bad = Some (kb, Throws msg)"
    and "\<forall>n \<in> set names. n \<noteq> bad \<longrightarrow> succeeds az n"
  shows "length (runAnalyzers az names) = length names \<and>
         distinct (map fst (runAnalyzers az names)) \<and>
         map_of (runAnalyzers az names) bad = Some (failure msg) \<and>
         (\<forall>n \<in> set names. n \<noteq> bad \<longrightarrow>
            (\<exists>key f. dispatch az n = Some (key, Returns f) \<and>
                     map_of (runAnalyzers az names) key = Some f \<and> success f \<noteq> Some False)) \<and>
         length (filter marked_failed (runAnalyzers az names)) = 1 \<and>
         length (filter (\<lambda>kf. \<not> marked_failed kf) (runAnalyzers az names)) = length names - 1"
  using run_isolates_failure [OF assms] by (intro conjI)

theorem runAnalyzers_isolates_failure_witness:
  "getEnabledAnalyzers sample_sources =
     [''eslint'', ''typescript'', ''security'', ''tests'', ''complexity'', ''bug-detection'',
      ''test-cases'', ''custom-rules''] \<and>
   distinct (getEnabledAnalyzers sample_sources) \<and>
   dispatch security_throws ''security'' = Some (''security'', Throws ''npm audit failed'') \<and>
   list_all (\<lambda>n. n = ''security'' \<or> succeeds security_throws n)
     (getEnabledAnalyzers sample_sources) \<and>
   length (runAnalyzers security_throws (getEnabledAnalyzers sample_sources)) = 8 \<and>
   map_of (runAnalyzers security_throws (getEnabledAnalyzers sample_sources)) ''security'' =
     Some (failure ''npm audit failed'') \<and>
   length (filter marked_failed
     (runAnalyzers security_throws (getEnabledAnalyzers sample_sources))) = 1 \<and>
   length (filter (\<lambda>kf. \<not> marked_failed kf)
     (runAnalyzers security_throws (getEnabledAnalyzers sample_sources))) = 7"
proof -
  define names where "names = getEnabledAnalyzers sample_sources"
  have e: "names =
     [''eslint'', ''typescript'', ''security'', ''tests'', ''complexity'', ''bug-detection'',
      ''test-cases'', ''custom-rules'']"
    unfolding names_def by code_simp
  have d: "distinct names" unfolding e by simp
  have b: "''security'' \<in> set names" unfolding e by simp
  have t: "dispatch security_throws ''security'' = Some (''security'', Throws ''npm audit failed'')"
    by code_simp
  have o: "list_all (\<lambda>n. n = ''security'' \<or> succeeds security_throws n) names"
    unfolding e by code_simp
  then have o': "\<forall>n \<in> set names. n \<noteq> ''security'' \<longrightarrow> succeeds security_throws n"
    by (auto simp: list_all_iff)
  note T = runAnalyzers_isolates_failure [OF d b t o']
  have 1: "length (runAnalyzers security_throws names) = 8"
    using T [THEN conjunct1] by (simp add: e)
  have 2: "map_of (runAnalyzers security_throws names) ''security'' =
      Some (failure ''npm audit failed'')"
    by (rule T [THEN conjunct2, THEN conjunct2, THEN conjunct1])
  have 3: "length (filter marked_failed (runAnalyzers security_throws names)) = 1"
    by (rule T [THEN conjunct2, THEN conjunct2, THEN conjunct2, THEN conjunct2, THEN conjunct1])
  have "length (filter (\<lambda>kf. \<not> marked_failed kf) (runAnalyzers security_throws names)) =
      length names - 1"
    by (rule T [THEN conjunct2, THEN conjunct2, THEN conjunct2, THEN conjunct2, THEN conjunct2])
  then have 4: "length (filter (\<lambda>kf. \<not> marked_failed kf)
      (runAnalyzers security_throws names)) = 7"
    by (simp add: e)
  show ?thesis
    using e d t o 1 2 3 4 unfolding names_def by (intro conjI)
qed

text \<open>
  The list \<^verbatim>\<open>runAnalyzers\<close> loops over is what \<^verbatim>\<open>loadConfig\<close> leaves in the
  configuration, so the property holds of every run as it stands.
\<close>

lemma run_of_configuration_isolates_failure:
  assumes "bad \<in> set (getEnabledAnalyzers sources)"
    and "dispatch az bad = Some (kb, Throws msg)"
    and "\<forall>n \<in> set (getEnabledAnalyzers sources). n \<noteq> bad \<longrightarrow> succeeds az n"
  shows "length (runAnalyzers az (getEnabledAnalyzers sources)) =
           length (getEnabledAnalyzers sources)"
    and "map_of (runAnalyzers az (getEnabledAnalyzers sources)) bad = Some (failure msg)"
    and "length (filter marked_failed (runAnalyzers az (getEnabledAnalyzers sources))) = 1"
  using run_isolates_failure [OF getEnabledAnalyzers_distinct assms] by blast+

text \<open>
  Without the \<^verbatim>\<open>Set\<close> of the configuration a repeated name would share one key:
  \<^verbatim>\<open>runAnalyzers\<close> itself writes by property assignment.
\<close>

lemma runAnalyzers_repeated_name:
  "map fst (runAnalyzers security_throws [''eslint'', ''eslint'', ''security'']) =
     [''eslint'', ''security''] \<and>
   array_from_Set [''eslint'', ''eslint'', ''security''] = [''eslint'', ''security'']"
  by code_simp

lemma dispatch_key_camel:
  assumes "dispatch az n = Some (key, oc)"
  shows "key \<noteq> ''custom-rules'' \<and> key \<noteq> ''bug-detection'' \<and> key \<noteq> ''test-cases''"
  using assms unfolding dispatch_def by (auto split: if_splits)

lemma run_one_only_failed:
  assumes "only_failed fs k" and "k = ''custom-rules'' \<or> k = ''bug-detection'' \<or> k = ''test-cases''"
  shows "only_failed (run_one az fs n) k"
proof (cases "dispatch az n")
  case None
  with assms(1) show ?thesis by (simp add: run_one_def)
next
  case (Some p)
  obtain key oc where p: "p = (key, oc)" by (cases p)
  from dispatch_key_camel [of az n key oc] Some p assms(2) have ne: "k \<noteq> key" by auto
  show ?thesis
  proof (cases oc)
    case (Returns f)
    with Some p ne assms(1) show ?thesis
      by (simp add: run_one_def only_failed_def update_conv')
  next
    case (Throws msg)
    with Some p assms(1) show ?thesis
      by (auto simp: run_one_def only_failed_def update_conv')
  qed
qed

lemma run_loop_only_failed:
  assumes "only_failed acc k" and "k = ''custom-rules'' \<or> k = ''bug-detection'' \<or> k = ''test-cases''"
  shows "only_failed (foldl (run_one az) acc names) k"
  using assms(1)
  by (induction names arbitrary: acc) (simp_all add: run_one_only_failed [OF _ assms(2)])

lemma runAnalyzers_only_failed:
  assumes "k = ''custom-rules'' \<or> k = ''bug-detection'' \<or> k = ''test-cases''"
  shows "only_failed (runAnalyzers az names) k"
  unfolding runAnalyzers_def by (rule run_loop_only_failed [OF _ assms]) (simp add: only_failed_def)

lemma only_failed_not_scored: "only_failed fs k \<Longrightarrow> scored fs k = None"
  by (auto simp: only_failed_def scored_def failure_def split: option.splits)

text \<open>
  Claim C9. For each of the requested names \<^verbatim>\<open>custom-rules\<close>, \<^verbatim>\<open>bug-detection\<close> and
  \<^verbatim>\<open>test-cases\<close> a returned Finding is stored under the camelCase key
  (\<^verbatim>\<open>customRules\<close>, \<^verbatim>\<open>bugDetection\<close>, \<^verbatim>\<open>testCases\<close>), which differs from the
  requested name, and a failure record is stored under the requested name itself. So in
  the findings map of any run the keys \<^verbatim>\<open>bug-detection\<close> and \<^verbatim>\<open>test-cases\<close>, the ones
  the weight table uses, hold a failure record or nothing, and the scoring loop never
  scores them.
\<close>

theorem hyphenated_keys_only_failed:
  "runAnalyzers az [''custom-rules''] =
     (case checkCustomRules_result az of Returns f \<Rightarrow> [(''customRules'', f)]
      | Throws msg \<Rightarrow> [(''custom-rules'', failure msg)]) \<and>
   runAnalyzers az [''bug-detection''] =
     (case checkBugDetection_result az of Returns f \<Rightarrow> [(''bugDetection'', f)]
      | Throws msg \<Rightarrow> [(''bug-detection'', failure msg)]) \<and>
   runAnalyzers az [''test-cases''] =
     (case checkTestCases_result az of Returns f \<Rightarrow> [(''testCases'', f)]
      | Throws msg \<Rightarrow> [(''test-cases'', failure msg)]) \<and>
   ''customRules'' \<noteq> ''custom-rules'' \<and> ''bugDetection'' \<noteq> ''bug-detection'' \<and>
   ''testCases'' \<noteq> ''test-cases'' \<and>
   only_failed (runAnalyzers az names) ''bug-detection'' \<and>
   only_failed (runAnalyzers az names) ''test-cases'' \<and>
   scored (runAnalyzers az names) ''bug-detection'' = None \<and>
   scored (runAnalyzers az names) ''test-cases'' = None"
proof (intro conjI)
  show "runAnalyzers az [''custom-rules''] =
     (case checkCustomRules_result az of Returns f \<Rightarrow> [(''customRules'', f)]
      | Throws msg \<Rightarrow> [(''custom-rules'', failure msg)])"
    by (simp add: runAnalyzers_def run_one_def dispatch_def split: outcome.splits)
  show "runAnalyzers az [''bug-detection''] =
     (case checkBugDetection_result az of Returns f \<Rightarrow> [(''bugDetection'', f)]
      | Throws msg \<Rightarrow> [(''bug-detection'', failure msg)])"
    by (simp add: runAnalyzers_def run_one_def dispatch_def split: outcome.splits)
  show "runAnalyzers az [''test-cases''] =
     (case checkTestCases_result az of Returns f \<Rightarrow> [(''testCases'', f)]
      | Throws msg \<Rightarrow> [(''test-cases'', failure msg)])"
    by (simp add: runAnalyzers_def run_one_def dispatch_def split: outcome.splits)
  show "only_failed (runAnalyzers az names) ''bug-detection''"
    by (rule runAnalyzers_only_failed) simp
  then show "scored (runAnalyzers az names) ''bug-detection'' = None"
    by (rule only_failed_not_scored)
  show "only_failed (runAnalyzers az names) ''test-cases''"
    by (rule runAnalyzers_only_failed) simp
  then show "scored (runAnalyzers az names) ''test-cases'' = None"
    by (rule only_failed_not_scored)
qed simp_all

theorem hyphenated_keys_only_failed_witness:
  "runAnalyzers security_throws [''bug-detection''] = [(''bugDetection'', ok_finding)] \<and>
   scored (runAnalyzers security_throws [''bug-detection'', ''test-cases'']) ''bug-detection'' = None"
proof -
  note T = hyphenated_keys_only_failed [of security_throws "[''bug-detection'', ''test-cases'']"]
  have "runAnalyzers security_throws [''bug-detection''] =
     (case checkBugDetection_result security_throws of Returns f \<Rightarrow> [(''bugDetection'', f)]
      | Throws msg \<Rightarrow> [(''bug-detection'', failure msg)])"
    by (rule T [THEN conjunct2, THEN conjunct1])
  also have "\<dots> = [(''bugDetection'', ok_finding)]" by (simp add: security_throws_def)
  finally have 1: "runAnalyzers security_throws [''bug-detection''] = [(''bugDetection'', ok_finding)]" .
  have 2: "scored (runAnalyzers security_throws [''bug-detection'', ''test-cases'']) ''bug-detection'' = None"
    using T by (elim conjE)
  from 1 2 show ?thesis by (rule conjI)
qed

section \<open>Properties of the rule engine\<close>

text \<open>
  Claim C3 at the glob \<^verbatim>\<open>src/**/*.ts\<close> and the path \<^verbatim>\<open>src/a/b/c.ts\<close>. The second
  replacement rewrites the \<^verbatim>\<open>*\<close> of the \<^verbatim>\<open>.*\<close> that the first one produced, so
  \<^verbatim>\<open>**\<close> ends up as \<^verbatim>\<open>.[^/]*\<close>: one character followed by a sequence without a
  separator. The rule restricted to that glob is left out for a file two directories
  below \<^verbatim>\<open>src\<close>, while under the translation the claim describes it is included.
\<close>

theorem getRulesForFile_double_star:
  "glob_to_regex_source ''src/**/*.ts'' = ''src/.[^/]*/[^/]*.ts'' \<and>
   getRulesForFile [rule_a, rule_b] ''src/a/b/c.ts'' = Some [rule_a] \<and>
   spec_glob_to_regex_source ''src/**/*.ts'' = ''src/.*/[^/]*.ts'' \<and>
   spec_rulesForFile [rule_a, rule_b] ''src/a/b/c.ts'' = Some [rule_a, rule_b]"
  by code_simp

text \<open>A rule without a \<^verbatim>\<open>files\<close> restriction applies to every path.\<close>

lemma rule_without_files_applies:
  "r_files r = None \<or> r_files r = Some [] \<Longrightarrow> rule_applies translate r filePath = Some True"
  by (auto simp: rule_applies_def)

text \<open>
  Claim C7 at the update \<^verbatim>\<open>updateRule('no-console', {id: 'no-eval'})\<close> of a rule list
  that already holds a rule \<^verbatim>\<open>no-eval\<close>: the update validates the merged rule and
  commits it, and two rules then share an id. \<^verbatim>\<open>addRule\<close> rejects the same rule on
  the same list.
\<close>

theorem updateRule_duplicate_id:
  "updateRule (\<lambda>p. True) [rule_a, rule_b] ''no-console'' (no_rule \<lparr> r_id := Some ''no-eval'' \<rparr>) =
     (Inr True, [rule_a, rule_b \<lparr> r_id := Some ''no-eval'' \<rparr>]) \<and>
   map r_id [rule_a, rule_b \<lparr> r_id := Some ''no-eval'' \<rparr>] = [Some ''no-eval'', Some ''no-eval''] \<and>
   addRule (\<lambda>p. True) [rule_a, rule_b] (rule_b \<lparr> r_id := Some ''no-eval'' \<rparr>) =
     (Inl (AlreadyExists (Some ''no-eval'')), [rule_a, rule_b])"
  by code_simp

text \<open>
  What does hold of the mutations: both re-run the single-rule validation, \<^verbatim>\<open>addRule\<close>
  rejects an id that is already in the list, and an operation that throws leaves the
  list as it was.
\<close>

lemma addRule_validates:
  "fst (addRule regex_ok rules r) = Inr b \<Longrightarrow> fst (validateRule regex_ok r (length rules)) = []"
  by (auto simp: addRule_def Let_def split: if_splits)

lemma addRule_rejects_duplicate:
  assumes "list_ex (\<lambda>existingRule. r_id existingRule = r_id r) rules"
  shows "\<exists>e. addRule regex_ok rules r = (Inl e, rules)"
  using assms by (simp add: addRule_def Let_def)

lemma updateRule_validates:
  assumes "fst (updateRule regex_ok rules ruleId updates) = Inr b"
  shows "\<exists>index. findIndex (\<lambda>r. r_id r = Some ruleId) rules = Some index \<and>
           fst (validateRule regex_ok (spread (rules ! index) updates) index) = []"
  using assms by (auto simp: updateRule_def Let_def split: option.splits if_splits)

lemma failed_mutation_unchanged:
  "fst (addRule regex_ok rules r) = Inl e \<Longrightarrow> snd (addRule regex_ok rules r) = rules"
  "fst (updateRule regex_ok rules ruleId updates) = Inl e \<Longrightarrow>
     snd (updateRule regex_ok rules ruleId updates) = rules"
  "fst (removeRule rules ruleId) = Inl e \<Longrightarrow> snd (removeRule rules ruleId) = rules"
  by (auto simp: addRule_def updateRule_def removeRule_def Let_def split: option.splits if_splits)

section \<open>Properties of the custom-rules analyzer\<close>

text \<open>
  Claim C10. When the rule engine is absent, has no rule list or has an empty one, the
  custom-rules analyzer returns \<^verbatim>\<open>{success: false, error: 'No custom rules defined'}\<close>
  and reads no file; a run that requests \<^verbatim>\<open>custom-rules\<close> then records that failure
  record (not a success with zero violations) under \<^verbatim>\<open>customRules\<close>.
\<close>

theorem checkCustomRules_no_rules:
  assumes "no_rules_defined ruleEngine"
  shows "checkCustomRules exec_all ruleEngine files =
           Some (failure ''No custom rules defined'', []) \<and>
         success (failure ''No custom rules defined'') = Some False \<and>
         runAnalyzers (with_custom_rules az (checkCustomRules exec_all ruleEngine files))
           [''custom-rules''] = [(''customRules'', failure ''No custom rules defined'')]"
proof -
  have c: "checkCustomRules exec_all ruleEngine files =
           Some (failure ''No custom rules defined'', [])"
    using assms
    by (auto simp: checkCustomRules_def no_rules_defined_def split: option.splits)
  have s: "success (failure ''No custom rules defined'') = Some False"
    by (simp add: failure_def)
  have r: "runAnalyzers (with_custom_rules az (checkCustomRules exec_all ruleEngine files))
           [''custom-rules''] = [(''customRules'', failure ''No custom rules defined'')]"
    by (simp add: c with_custom_rules_def runAnalyzers_def run_one_def dispatch_def)
  from c s r show ?thesis by (intro conjI)
qed

theorem checkCustomRules_no_rules_witness:
  "no_rules_defined (Some \<lparr> engine_rules = Some [] \<rparr>) \<and>
   checkCustomRules sample_exec (Some \<lparr> engine_rules = Some [] \<rparr>)
     [(''src/a.ts'', Some ''eval(x)'')] = Some (failure ''No custom rules defined'', []) \<and>
   checkCustomRules sample_exec (Some \<lparr> engine_rules = Some [rule_a] \<rparr>)
     [(''src/a.ts'', Some ''eval(x)'')] \<noteq> Some (failure ''No custom rules defined'', [])"
proof -
  have n: "no_rules_defined (Some \<lparr> engine_rules = Some [] \<rparr>)" by code_simp
  have 1: "checkCustomRules sample_exec (Some \<lparr> engine_rules = Some [] \<rparr>)
     [(''src/a.ts'', Some ''eval(x)'')] = Some (failure ''No custom rules defined'', [])"
    by (rule checkCustomRules_no_rules [OF n, THEN conjunct1])
  have 2: "checkCustomRules sample_exec (Some \<lparr> engine_rules = Some [rule_a] \<rparr>)
     [(''src/a.ts'', Some ''eval(x)'')] \<noteq> Some (failure ''No custom rules defined'', [])"
    by code_simp
  from n 1 2 show ?thesis by (intro conjI)
qed

text \<open>
  Past the guard the analyzer need not return: a rule without \<^verbatim>\<open>pattern\<close>, or a
  pattern with an empty match, keeps the \<^verbatim>\<open>exec\<close> loop of the first file that can be
  read running.
\<close>

lemma checkCustomRules_no_pattern:
  "checkCustomRules exec_all (Some \<lparr> engine_rules = Some [no_rule] \<rparr>)
     [(''src/a.ts'', Some content)] = None"
  by (simp add: checkCustomRules_def getRulesForFile_def rule_applies_def rule_violations_def
        no_rule_def)

lemma checkCustomRules_empty_match:
  "checkCustomRules empty_match_exec (Some \<lparr> engine_rules = Some [rule_a] \<rparr>)
     [(''src/a.ts'', Some ''eval(x)'')] = None"
  by code_simp

section \<open>Properties of the coverage weighting\<close>

lemma coverage_loop:
  "foldl coverage_step (c, cn, i, n) coverageData =
     (foldl (\<lambda>t p. fl (t + p)) c (core_pcts coverageData), cn + length (core_pcts coverageData),
      foldl (\<lambda>t p. fl (t + p)) i (infra_pcts coverageData), n + length (infra_pcts coverageData))"
proof (induction coverageData arbitrary: c cn i n)
  case Nil
  show ?case by (simp add: core_pcts_def infra_pcts_def)
next
  case (Cons e es)
  obtain p fc where e: "e = (p, fc)" by (cases e)
  have pc: "core_pcts (e # es) =
      (if p \<noteq> ''total'' \<and> isCoreLogicFile p then [statements_pct fc] else []) @ core_pcts es"
    by (simp add: core_pcts_def e)
  have pi: "infra_pcts (e # es) =
      (if p \<noteq> ''total'' \<and> \<not> isCoreLogicFile p then [statements_pct fc] else []) @ infra_pcts es"
    by (simp add: infra_pcts_def e)
  show ?case
    unfolding pc pi by (simp add: e Cons.IH Let_def)
qed

lemma weightedScore_closed_form:
  "weightedScore (calculateWeightedCoverage coverageData) =
     Some (round2 (weighted (mean (core_pcts coverageData)) (mean (infra_pcts coverageData))))"
  by (simp add: calculateWeightedCoverage_def coverage_loop Let_def mean_def weighted_def
        double_sum_def)

lemma isCoreLogicFile_iff:
  "isCoreLogicFile filePath =
     (core_pattern (basename filePath) \<or> \<not> infrastructure_pattern (basename filePath))"
  by (auto simp: isCoreLogicFile_def core_pattern_def infrastructure_pattern_def Let_def)

lemma round2_82: "round2 (weighted 90 50) = 82"
  by code_simp

text \<open>
  Claim C4, as the code has it. The weighted coverage score is
  \<open>0.8 * mean core + 0.2 * mean infrastructure\<close> computed in double arithmetic and then
  rounded to two decimal places by \<^verbatim>\<open>Math.round(x * 100) / 100\<close>, itself in double
  arithmetic. The means are the double sums, in the order of the keys, of the statement
  percentages of the files of each class (every key but \<^verbatim>\<open>total\<close>) divided by their
  number, and the mean of a class without files is 0. A file is infrastructure exactly
  when its base name contains \<^verbatim>\<open>route\<close> or \<^verbatim>\<open>middleware\<close> and none of the core-logic
  patterns; every other file is core logic. Means of 90 and 50 give the score 82.
\<close>

theorem calculateWeightedCoverage_score:
  "weightedScore (calculateWeightedCoverage coverageData) =
     Some (round2 (weighted (mean (core_pcts coverageData)) (mean (infra_pcts coverageData)))) \<and>
   isCoreLogicFile filePath =
     (core_pattern (basename filePath) \<or> \<not> infrastructure_pattern (basename filePath)) \<and>
   (mean (core_pcts coverageData) = 90 \<and> mean (infra_pcts coverageData) = 50 \<longrightarrow>
      weightedScore (calculateWeightedCoverage coverageData) = Some 82)"
proof (intro conjI impI)
  show "weightedScore (calculateWeightedCoverage coverageData) =
     Some (round2 (weighted (mean (core_pcts coverageData)) (mean (infra_pcts coverageData))))"
    by (rule weightedScore_closed_form)
  show "isCoreLogicFile filePath =
     (core_pattern (basename filePath) \<or> \<not> infrastructure_pattern (basename filePath))"
    by (rule isCoreLogicFile_iff)
next
  assume "mean (core_pcts coverageData) = 90 \<and> mean (infra_pcts coverageData) = 50"
  then show "weightedScore (calculateWeightedCoverage coverageData) = Some 82"
    by (simp only: weightedScore_closed_form round2_82)
qed

theorem calculateWeightedCoverage_score_witness:
  "mean (core_pcts coverage_90_50) = 90 \<and> mean (infra_pcts coverage_90_50) = 50 \<and>
   weightedScore (calculateWeightedCoverage coverage_90_50) = Some 82 \<and>
   isCoreLogicFile ''/app/src/user.routes.js'' = False \<and>
   isCoreLogicFile ''/app/src/index.js'' = True"
proof -
  have m: "mean (core_pcts coverage_90_50) = 90 \<and> mean (infra_pcts coverage_90_50) = 50"
    by code_simp
  note T = calculateWeightedCoverage_score [of coverage_90_50 "''/app/src/user.routes.js''"]
  have w: "weightedScore (calculateWeightedCoverage coverage_90_50) = Some 82"
    using T [THEN conjunct2, THEN conjunct2] m by (rule mp)
  have "isCoreLogicFile ''/app/src/user.routes.js'' =
     (core_pattern (basename ''/app/src/user.routes.js'') \<or>
      \<not> infrastructure_pattern (basename ''/app/src/user.routes.js''))"
    by (rule T [THEN conjunct2, THEN conjunct1])
  also have "\<dots> = False" by code_simp
  finally have r: "isCoreLogicFile ''/app/src/user.routes.js'' = False" .
  have i: "isCoreLogicFile ''/app/src/index.js'' = True" by code_simp
  from m w r i show ?thesis by (intro conjI) simp_all
qed

text \<open>
  One core-logic file covered to 33.33 percent: the code returns 26.66, the double
  nearest to it, where \<open>0.8 * 33.33\<close> is 26.664.
\<close>

theorem weightedScore_rounding_counterexample:
  "weightedScore (calculateWeightedCoverage coverage_third) = Some (fl (2666 / 100)) \<and>
   weighted (mean (core_pcts coverage_third)) (mean (infra_pcts coverage_third))
     = fl (26664 / 1000) \<and>
   fl (2666 / 100) \<noteq> fl (26664 / 1000)"
proof -
  have m: "mean (core_pcts coverage_third) = fl (3333 / 100)"
    and i: "mean (infra_pcts coverage_third) = 0"
    by code_simp+
  have w: "weighted (fl (3333 / 100)) 0 = fl (26664 / 1000)" by code_simp
  have r: "round2 (fl (26664 / 1000)) = fl (2666 / 100)" by code_simp
  have 1: "weightedScore (calculateWeightedCoverage coverage_third) = Some (fl (2666 / 100))"
    by (simp only: weightedScore_closed_form m i w r)
  have 2: "weighted (mean (core_pcts coverage_third)) (mean (infra_pcts coverage_third))
     = fl (26664 / 1000)"
    by (simp only: m i w)
  have 3: "fl (2666 / 100) \<noteq> fl (26664 / 1000)" by code_simp
  from 1 2 3 show ?thesis by (intro conjI)
qed

text \<open>
  The rounding to two decimals is a rounding of doubles, not of the exact numbers. A
  core-logic mean of 75 with an infrastructure mean of 20.425 weighs 64.085, a tie; the
  double product \<open>weighted * 100\<close> is 6408.499999999999, and the code returns 64.08 where
  rounding the exact number half up gives 64.09.
\<close>

lemma calculateWeightedCoverage_double_rounding:
  "weightedScore (calculateWeightedCoverage coverage_75_20) = Some (fl (6408 / 100)) \<and>
   exact_round2 (75 * (8 / 10) + (0 + 4085 / 100) / 2 * (2 / 10)) = 6409 / 100 \<and>
   fl (6408 / 100) \<noteq> fl (6409 / 100)"
proof -
  have m: "mean (core_pcts coverage_75_20) = 75"
    and i: "mean (infra_pcts coverage_75_20) = fl (20425 / 1000)"
    by code_simp+
  have w: "weighted 75 (fl (20425 / 1000)) = fl (64085 / 1000)" by code_simp
  have r: "round2 (fl (64085 / 1000)) = fl (6408 / 100)" by code_simp
  have 1: "weightedScore (calculateWeightedCoverage coverage_75_20) = Some (fl (6408 / 100))"
    by (simp only: weightedScore_closed_form m i w r)
  have 2: "exact_round2 (75 * (8 / 10) + (0 + 4085 / 100) / 2 * (2 / 10)) = 6409 / 100"
    by code_simp
  have 3: "fl (6408 / 100) \<noteq> fl (6409 / 100)" by code_simp
  from 1 2 3 show ?thesis by (intro conjI)
qed

section \<open>Properties of the coverage fallback\<close>

text \<open>
  Claim C5 at the finding \<^verbatim>\<open>checkTests\<close> returns for 80 percent statement coverage
  (no weighted coverage data). \<^verbatim>\<open>getAnalyzerScore\<close> of \<^verbatim>\<open>src/lib/index.js\<close> scores
  it 80: its \<^verbatim>\<open>tests\<close> branch is \<^verbatim>\<open>Math.min(100, coverage)\<close>. The copy in
  \<^verbatim>\<open>src/unnamed/part_001\<close> also scores it 80, because it applies the curve only when
  \<^verbatim>\<open>findings.coverage\<close> is an object. The curve of the claim gives 88.
\<close>

theorem tests_sub_score_no_curve:
  "weightedCoverage tests_80 = None \<and>
   getAnalyzerScore ''tests'' tests_80 = Num 80 \<and>
   getAnalyzerScore_tests2 tests_80 = Num 80 \<and>
   spec_fallback_curve 80 = 88"
  by code_simp

text \<open>
  The curve itself is in the code: on a finding without weighted coverage data whose
  \<^verbatim>\<open>coverage\<close> is an object with the raw percentage \<open>s\<close>,
  \<^verbatim>\<open>calculateWeightedTestScore\<close> returns the curve's value in double arithmetic, and so
  does the \<^verbatim>\<open>tests\<close> branch of the second copy. At 80 percent that is the 88 of the
  specification; at 90 percent it is 99.00000000000001, where the exact product is 99.
\<close>

lemma double_curve_le: "double_curve s \<le> 100"
proof -
  have "fl (s * fl (8 / 10)) \<le> 100" if "s < 40"
  proof -
    have "fl (8 / 10) \<le> 1" by (rule fl_le_1) simp
    moreover have "0 \<le> fl (8 / 10)" by (rule fl_nonneg) simp
    ultimately have "s * fl (8 / 10) \<le> 100"
      using that mult_mono [of s 40 "fl (8 / 10)" 1]
      by (cases "0 \<le> s") (simp_all add: mult_nonpos_nonneg order_trans [of _ 0 100])
    then show ?thesis by (rule fl_le_100)
  qed
  then show ?thesis by (auto simp: double_curve_def min_def max_def)
qed

lemma calculateWeightedTestScore_curve:
  assumes "weightedCoverage f = None \<or> (\<exists>wc. weightedCoverage f = Some wc \<and> weightedScore wc = None)"
    and "coverage f = Some (CovObject (Some (StmtNumber s)))"
  shows "calculateWeightedTestScore f = Num (double_curve s)"
    and "getAnalyzerScore_tests2 f = Num (double_curve s)"
proof -
  have st: "statementsCoverage f = Num s" by (simp add: statementsCoverage_def assms(2))
  have fb: "(let s = statementsCoverage f
         in if js_ge s 70 then Math_min (Num 100) (js_mul s (Num (fl (11 / 10))))
            else if js_ge s 40 then s
            else Math_max (Num 0) (js_mul s (Num (fl (8 / 10))))) = Num (double_curve s)"
    by (simp add: st double_curve_def)
  show c: "calculateWeightedTestScore f = Num (double_curve s)"
    using assms(1) unfolding calculateWeightedTestScore_def fb by (auto simp: Let_def)
  show "getAnalyzerScore_tests2 f = Num (double_curve s)"
    using double_curve_le [of s] by (simp add: getAnalyzerScore_tests2_def assms(2) c min_def)
qed

lemma double_curve_values:
  "double_curve 80 = 88 \<and> spec_fallback_curve 80 = 88 \<and>
   double_curve 90 = 6966505673588737 / 70368744177664 \<and> spec_fallback_curve 90 = 99 \<and>
   getAnalyzerScore_tests2 tests_object_80 = Num 88"
  by code_simp

section \<open>Properties of the report selection\<close>

text \<open>
  Claim C6 at the runs \<^verbatim>\<open>analyze\<close> and \<^verbatim>\<open>analyze --ai-prompts\<close>, with the default
  configuration (\<^verbatim>\<open>reporters: ['html']\<close>) and renderers that all succeed. The plain
  run hands no reporter list on and \<^verbatim>\<open>generateReports\<close> of \<^verbatim>\<open>src/lib/index.js\<close>
  renders the html report alone. The run with \<^verbatim>\<open>--ai-prompts\<close> hands on the list
  \<^verbatim>\<open>['ai-prompts']\<close>, and \<^verbatim>\<open>generateReports\<close> renders the AI prompts alone: no html
  report and no narrative summary. The second copy of \<^verbatim>\<open>generateReports\<close> renders
  html and the AI summary for the same options.
\<close>

theorem exploratory_run_reports:
  "opt_reporters (toolOptions plain_run) = None \<and>
   generateReports all_rendered (Some [''html'']) (toolOptions plain_run) =
     [(''html'', ''reports/code-review-report.html'')] \<and>
   opt_reporters (toolOptions ai_prompts_run) = Some [''ai-prompts''] \<and>
   generateReports all_rendered (Some [''html'']) (toolOptions ai_prompts_run) =
     [(''aiPrompts'', ''reports/ai-prompts.md'')] \<and>
   generateReports2 all_rendered (Some [''html'']) (toolOptions ai_prompts_run) =
     [(''html'', ''reports/code-review-report.html''),
      (''aiSummary'', ''reports/ai-review-summary.md'')]"
  by code_simp

text \<open>
  The second copy selects by mode alone, whatever list the caller or the configuration
  gives: html, and the AI summary after it in an AI run.
\<close>

lemma generateReports2_selection:
  "generateReports2 rr configReporters options =
     (if isAITesting options
      then assign_report ''aiSummary'' (generateAISummaryMD_result rr)
             (assign_report ''html'' (generateHTMLReport_result rr) [])
      else assign_report ''html'' (generateHTMLReport_result rr) [])"
  by (simp add: generateReports2_def report_step2_def Let_def)

lemma generateReports2_all_rendered:
  "map fst (generateReports2 all_rendered configReporters options) =
     (if isAITesting options then [''html'', ''aiSummary''] else [''html''])"
  by (simp add: generateReports2_selection assign_report_def all_rendered_def)

end
